theory Spec2Isabelle
  imports Complex_Main "HOL-Library.Sublist" "HOL-Library.AList"
begin

section \<open>Strings as the launcher and the icon lookup use them\<close>

text \<open>
  JavaScript strings are modelled as Isabelle strings (lists of 8-bit characters), so the
  model covers ASCII text, which is what every title of the catalog is.
  \<^verbatim>\<open>toLowerCase\<close> maps the letters A..Z to a..z and leaves every other character as it
  is; \<^verbatim>\<open>trim\<close> removes leading and trailing white space (tab, line feed, vertical tab,
  form feed, carriage return, space); \<^verbatim>\<open>s.includes(t)\<close> holds when \<open>t\<close> occurs in \<open>s\<close> as a
  contiguous run of characters.
\<close>

definition letter_table :: "(char \<times> char) list" where
  "letter_table = zip ''ABCDEFGHIJKLMNOPQRSTUVWXYZ'' ''abcdefghijklmnopqrstuvwxyz''"

definition lower_char :: "char \<Rightarrow> char" where
  "lower_char c = (case map_of letter_table c of Some l \<Rightarrow> l | None \<Rightarrow> c)"

definition toLowerCase :: "string \<Rightarrow> string" where
  "toLowerCase s = map lower_char s"

definition is_space :: "char \<Rightarrow> bool" where
  "is_space c = (c \<in> set [CHR 0x09, CHR 0x0A, CHR 0x0B, CHR 0x0C, CHR 0x0D, CHR 0x20])"

definition trim :: "string \<Rightarrow> string" where
  "trim s = rev (dropWhile is_space (rev (dropWhile is_space s)))"

fun str_includes :: "string \<Rightarrow> string \<Rightarrow> bool" where
  "str_includes [] t = (t = [])"
| "str_includes (c # cs) t = (prefix t (c # cs) \<or> str_includes cs t)"

section \<open>Launchpad: the catalog and its search filter\<close>

text \<open>
  \<^verbatim>\<open>ModalDefinition\<close> of \<^verbatim>\<open>launchpad.ts\<close>. The icons of the source are emoji; the model
  writes each one as its code points, since no operation looks inside an icon.
\<close>

record ModalDefinition =
  md_title :: string
  md_width :: real
  md_height :: real
  md_titleBarColor :: string
  md_icon :: string

record Launchpad =
  isVisible :: bool
  searchInput :: string
  modalDefinitions :: "ModalDefinition list"
  filteredModals :: "ModalDefinition list"

text \<open>\<^verbatim>\<open>initializeModalDefinitions\<close>: the eight definitions, in the order of the source.\<close>

definition catalog :: "ModalDefinition list" where
  "catalog =
    [\<lparr>md_title = ''HELLO Dialog'', md_width = 600, md_height = 400,
        md_titleBarColor = ''#007acc'', md_icon = ''U+1F44B''\<rparr>,
     \<lparr>md_title = ''Small Window'', md_width = 400, md_height = 300,
        md_titleBarColor = ''#8e44ad'', md_icon = ''U+1F4F1''\<rparr>,
     \<lparr>md_title = ''Large Window'', md_width = 800, md_height = 600,
        md_titleBarColor = ''#e67e22'', md_icon = ''U+1F5A5 U+FE0F''\<rparr>,
     \<lparr>md_title = ''Settings'', md_width = 500, md_height = 400,
        md_titleBarColor = ''#95a5a6'', md_icon = ''U+2699 U+FE0F''\<rparr>,
     \<lparr>md_title = ''File Manager'', md_width = 700, md_height = 500,
        md_titleBarColor = ''#3498db'', md_icon = ''U+1F4C1''\<rparr>,
     \<lparr>md_title = ''Terminal'', md_width = 600, md_height = 400,
        md_titleBarColor = ''#2c3e50'', md_icon = ''U+1F4BB''\<rparr>,
     \<lparr>md_title = ''Calculator'', md_width = 300, md_height = 400,
        md_titleBarColor = ''#e74c3c'', md_icon = ''U+1F9EE''\<rparr>,
     \<lparr>md_title = ''Text Editor'', md_width = 650, md_height = 450,
        md_titleBarColor = ''#27ae60'', md_icon = ''U+1F4DD''\<rparr>]"

text \<open>The launchpad as its constructor leaves it: hidden, empty search box, full catalog.\<close>

definition new_Launchpad :: Launchpad where
  "new_Launchpad =
    \<lparr>isVisible = False, searchInput = [], modalDefinitions = catalog,
     filteredModals = catalog\<rparr>"

text \<open>
  \<^verbatim>\<open>filterModals\<close>: the search term is the lower-cased, trimmed value of the search box; an
  empty term shows the whole catalog, any other term keeps the definitions whose lower-cased
  title includes it.
\<close>

definition filterModals :: "Launchpad \<Rightarrow> Launchpad" where
  "filterModals lp =
    (let searchTerm = trim (toLowerCase (searchInput lp)) in
     if searchTerm = []
     then lp\<lparr>filteredModals := modalDefinitions lp\<rparr>
     else lp\<lparr>filteredModals :=
            filter (\<lambda>modal. str_includes (toLowerCase (md_title modal)) searchTerm)
              (modalDefinitions lp)\<rparr>)"

text \<open>
  Typing in the search box: the box holds the new text and its \<^verbatim>\<open>input\<close> listener runs
  \<^verbatim>\<open>filterModals\<close>. This is the \<open>setQuery\<close> of the specification.
\<close>

definition setQuery :: "string \<Rightarrow> Launchpad \<Rightarrow> Launchpad" where
  "setQuery q lp = filterModals (lp\<lparr>searchInput := q\<rparr>)"

text \<open>
  The filtered view in the words of the specification: the catalog entries whose title
  contains the query case-insensitively, in catalog order.
\<close>

definition contains_ci :: "string \<Rightarrow> string \<Rightarrow> bool" where
  "contains_ci ttl q = sublist (toLowerCase q) (toLowerCase ttl)"

definition spec_filtered :: "ModalDefinition list \<Rightarrow> string \<Rightarrow> ModalDefinition list" where
  "spec_filtered defs q = filter (\<lambda>d. contains_ci (md_title d) q) defs"

section \<open>Placement of a launched window\<close>

record Position =
  pos_left :: real
  pos_top :: real

text \<open>
  \<^verbatim>\<open>DOMUtils.calculateRandomModalPosition\<close>. The inputs the source reads from its
  environment are arguments here: the viewport's \<^verbatim>\<open>innerWidth\<close> and \<^verbatim>\<open>innerHeight\<close>, and
  the two values \<^verbatim>\<open>Math.random()\<close> returns (each in the interval from 0 to 1, 1 excluded),
  the first for \<open>left\<close>, the second for \<open>top\<close>. Numbers are reals.
\<close>

definition calculateRandomModalPosition ::
  "real \<Rightarrow> real \<Rightarrow> real \<Rightarrow> real \<Rightarrow> real \<Rightarrow> real \<Rightarrow> Position" where
  "calculateRandomModalPosition innerWidth innerHeight random1 random2 w h =
    (let maxLeft = max 50 (innerWidth - w - 50);
         maxTop = max 50 (innerHeight - h - 100)
     in \<lparr>pos_left = random1 * maxLeft + 50, pos_top = random2 * maxTop + 50\<rparr>)"

section \<open>The host surface and what it measures\<close>

text \<open>
  An element's \<^verbatim>\<open>style.width\<close>, \<^verbatim>\<open>height\<close>, \<^verbatim>\<open>left\<close> and \<^verbatim>\<open>top\<close> hold either a pixel
  length or, while the window is maximized, \<^verbatim>\<open>calc(100% - Npx)\<close>. \<^verbatim>\<open>style.display\<close> is
  \<^verbatim>\<open>flex\<close>, \<^verbatim>\<open>block\<close> or \<^verbatim>\<open>none\<close>.
\<close>

datatype css_length = Px real | CalcFullMinus real

datatype css_display = DisplayFlex | DisplayBlock | DisplayNone

datatype box_sizing = ContentBox | BorderBox

text \<open>\<^verbatim>\<open>Size & Position\<close> of \<^verbatim>\<open>types.ts\<close>, also the four numbers read from a \<^verbatim>\<open>DOMRect\<close>.\<close>

record Rect =
  r_width :: real
  r_height :: real
  r_left :: real
  r_top :: real

text \<open>
  The host: where the content area (the positioned container every window is appended to)
  lies in the viewport, its size, and the box-sizing in force for the windows.
\<close>

record Host =
  contentLeft :: real
  contentTop :: real
  contentWidth :: real
  contentHeight :: real
  boxSizing :: box_sizing

text \<open>
  \<^verbatim>\<open>UI_CONSTANTS.TITLE_BAR_HEIGHT\<close>. \<^verbatim>\<open>CustomUIManager.createLayout\<close> puts the title bar
  (\<^verbatim>\<open>height: 40px; border-bottom: 1px solid\<close>) first in the main container and the content
  area (\<^verbatim>\<open>height: calc(100vh - 40px)\<close>) right below it. With the main container filling a
  viewport of \<open>iw\<close> by \<open>ih\<close> the content area therefore starts 40 pixels down under
  border-box sizing, and 41 pixels down under content-box sizing, where the title bar's
  border adds to its height.
\<close>

definition TITLE_BAR_HEIGHT :: real where
  "TITLE_BAR_HEIGHT = 40"

definition title_bar_border :: "box_sizing \<Rightarrow> real" where
  "title_bar_border bs = (case bs of ContentBox \<Rightarrow> 1 | BorderBox \<Rightarrow> 0)"

definition layout_host :: "real \<Rightarrow> real \<Rightarrow> box_sizing \<Rightarrow> Host" where
  "layout_host iw ih bs =
    \<lparr>contentLeft = 0, contentTop = TITLE_BAR_HEIGHT + title_bar_border bs, contentWidth = iw,
     contentHeight = ih - TITLE_BAR_HEIGHT, boxSizing = bs\<rparr>"

section \<open>ModalWindow\<close>

text \<open>
  A \<^verbatim>\<open>ModalWindow\<close> together with its DOM element. \<open>title\<close>, \<open>titleBarColor\<close>,
  \<open>isMinimized\<close>, \<open>isMaximized\<close> and \<open>originalSize\<close> are the object's fields (its \<open>width\<close>,
  \<open>height\<close>, \<open>left\<close> and \<open>top\<close> are only read to build the element); the \<open>style_\<close> fields are the element's inline
  style, \<open>data_active\<close> its \<^verbatim>\<open>data-active\<close> attribute (absent until \<^verbatim>\<open>setActive\<close> first
  runs) and \<open>attached\<close> says whether the element is a child of the content area.
  \<^verbatim>\<open>setActive\<close> and \<^verbatim>\<open>setZIndex\<close> write the attribute and the style only: the fields
  \<^verbatim>\<open>state.isActive\<close> and \<^verbatim>\<open>state.zIndex\<close> are never assigned after construction, so the
  active flag and the z-index of a window are \<open>data_active\<close> and \<open>style_zIndex\<close>. Opacity,
  transform, transition and border radius are presentation only and left out.
\<close>

record ModalWindow =
  title :: string
  titleBarColor :: string
  isMinimized :: bool
  isMaximized :: bool
  originalSize :: "Rect option"
  style_width :: css_length
  style_height :: css_length
  style_left :: css_length
  style_top :: css_length
  style_display :: css_display
  style_zIndex :: int
  data_active :: "bool option"
  attached :: bool

text \<open>The constructor with \<^verbatim>\<open>createModalElement\<close>: the \<^verbatim>\<open>cssText\<close> of a new dialog.\<close>

definition new_ModalWindow ::
  "string \<Rightarrow> real \<Rightarrow> real \<Rightarrow> real \<Rightarrow> real \<Rightarrow> string \<Rightarrow> ModalWindow" where
  "new_ModalWindow t w h l tp color =
    \<lparr>title = t, titleBarColor = color, isMinimized = False, isMaximized = False, originalSize = None,
     style_width = Px w, style_height = Px h, style_left = Px l, style_top = Px tp,
     style_display = DisplayFlex, style_zIndex = 100, data_active = None,
     attached = False\<rparr>"

text \<open>
  \<^verbatim>\<open>getBoundingClientRect\<close>, as the host lays a dialog out from its \<^verbatim>\<open>cssText\<close>
  (\<^verbatim>\<open>position: absolute\<close> inside the content area, \<^verbatim>\<open>min-width: 300px\<close>,
  \<^verbatim>\<open>min-height: 200px\<close>, \<^verbatim>\<open>border: 1px solid\<close>): the rectangle is in viewport coordinates,
  so \<open>left\<close> and \<open>top\<close> are offset by the content area's position; the used width and height
  are at least the minimum, and under content-box sizing the two borders add 2 pixels. An
  element that is not rendered (detached, or \<^verbatim>\<open>display: none\<close>) measures zero.
\<close>

definition resolve :: "real \<Rightarrow> css_length \<Rightarrow> real" where
  "resolve full len = (case len of Px v \<Rightarrow> v | CalcFullMinus v \<Rightarrow> full - v)"

definition border_extra :: "Host \<Rightarrow> real" where
  "border_extra h = (case boxSizing h of ContentBox \<Rightarrow> 2 | BorderBox \<Rightarrow> 0)"

definition rendered :: "ModalWindow \<Rightarrow> bool" where
  "rendered m = (attached m \<and> style_display m \<noteq> DisplayNone)"

definition getBoundingClientRect :: "Host \<Rightarrow> ModalWindow \<Rightarrow> Rect" where
  "getBoundingClientRect h m =
    (if rendered m
     then \<lparr>r_width = max 300 (resolve (contentWidth h) (style_width m)) + border_extra h,
           r_height = max 200 (resolve (contentHeight h) (style_height m)) + border_extra h,
           r_left = contentLeft h + resolve (contentWidth h) (style_left m),
           r_top = contentTop h + resolve (contentHeight h) (style_top m)\<rparr>
     else \<lparr>r_width = 0, r_height = 0, r_left = 0, r_top = 0\<rparr>)"

text \<open>\<^verbatim>\<open>maximize\<close>, \<^verbatim>\<open>restoreSize\<close> and \<^verbatim>\<open>toggleMaximize\<close>.\<close>

definition maximize :: "Host \<Rightarrow> ModalWindow \<Rightarrow> ModalWindow" where
  "maximize h m =
    (if \<not> isMaximized m
     then (let rect = getBoundingClientRect h m in
           m\<lparr>originalSize := Some \<lparr>r_width = r_width rect, r_height = r_height rect,
                                  r_left = r_left rect, r_top = r_top rect\<rparr>,
             style_width := CalcFullMinus 20, style_height := CalcFullMinus 20,
             style_left := Px 10, style_top := Px 10, isMaximized := True\<rparr>)
     else m)"

definition restoreSize :: "ModalWindow \<Rightarrow> ModalWindow" where
  "restoreSize m =
    (case originalSize m of
       Some saved \<Rightarrow>
         if isMaximized m
         then m\<lparr>style_width := Px (r_width saved), style_height := Px (r_height saved),
                style_left := Px (r_left saved), style_top := Px (r_top saved),
                isMaximized := False, originalSize := None\<rparr>
         else m
     | None \<Rightarrow> m)"

definition toggleMaximize :: "Host \<Rightarrow> ModalWindow \<Rightarrow> ModalWindow" where
  "toggleMaximize h m = (if isMaximized m then restoreSize m else maximize h m)"

text \<open>
  Resizing. \<^verbatim>\<open>startResize\<close> reads the bounding rectangle once, at the mouse-down; every
  \<^verbatim>\<open>mousemove\<close> then computes the new box from these start values and the distance moved.
  The handle is the name the source gives it, and the tests on it are the source's
  \<^verbatim>\<open>direction.includes\<close>.
\<close>

datatype handle = Hnw | Hn | Hne | He | Hse | Hs | Hsw | Hw

fun handle_name :: "handle \<Rightarrow> string" where
  "handle_name Hnw = ''nw''"
| "handle_name Hn = ''n''"
| "handle_name Hne = ''ne''"
| "handle_name He = ''e''"
| "handle_name Hse = ''se''"
| "handle_name Hs = ''s''"
| "handle_name Hsw = ''sw''"
| "handle_name Hw = ''w''"

definition onMouseMove :: "Rect \<Rightarrow> string \<Rightarrow> real \<Rightarrow> real \<Rightarrow> Rect" where
  "onMouseMove start direction deltaX deltaY =
    (let startWidth = r_width start; startHeight = r_height start;
         startLeft = r_left start; startTop = r_top start;
         newWidth = (if str_includes direction ''e'' then max 300 (startWidth + deltaX)
                     else if str_includes direction ''w'' then max 300 (startWidth - deltaX)
                     else startWidth);
         newLeft = (if str_includes direction ''e'' then startLeft
                    else if str_includes direction ''w'' then startLeft + (startWidth - newWidth)
                    else startLeft);
         newHeight = (if str_includes direction ''s'' then max 200 (startHeight + deltaY)
                      else if str_includes direction ''n'' then max 200 (startHeight - deltaY)
                      else startHeight);
         newTop = (if str_includes direction ''s'' then startTop
                   else if str_includes direction ''n'' then startTop + (startHeight - newHeight)
                   else startTop)
     in \<lparr>r_width = newWidth, r_height = newHeight, r_left = newLeft, r_top = newTop\<rparr>)"

text \<open>
  One resize step: a mouse-down on the handle \<open>d\<close> of a window, then a mouse move by
  \<open>(deltaX, deltaY)\<close>, which writes the new box into the element's style.
\<close>

definition resize :: "Host \<Rightarrow> handle \<Rightarrow> real \<Rightarrow> real \<Rightarrow> ModalWindow \<Rightarrow> ModalWindow" where
  "resize h d deltaX deltaY m =
    (let new = onMouseMove (getBoundingClientRect h m) (handle_name d) deltaX deltaY in
     m\<lparr>style_width := Px (r_width new), style_height := Px (r_height new),
       style_left := Px (r_left new), style_top := Px (r_top new)\<rparr>)"

text \<open>
  Dragging (\<^verbatim>\<open>makeDraggable\<close>): the mouse-down on the title bar reads the bounding rectangle,
  every \<^verbatim>\<open>mousemove\<close> sets left and top to the start position plus the distance moved.
\<close>

definition drag :: "Host \<Rightarrow> real \<Rightarrow> real \<Rightarrow> ModalWindow \<Rightarrow> ModalWindow" where
  "drag h deltaX deltaY m =
    (let rect = getBoundingClientRect h m;
         startLeft = r_left rect; startTop = r_top rect
     in m\<lparr>style_left := Px (startLeft + deltaX), style_top := Px (startTop + deltaY)\<rparr>)"

text \<open>A sequence of resize steps, applied in order.\<close>

fun resizes :: "Host \<Rightarrow> (handle \<times> real \<times> real) list \<Rightarrow> ModalWindow \<Rightarrow> ModalWindow" where
  "resizes h [] m = m"
| "resizes h ((d, deltaX, deltaY) # steps) m = resizes h steps (resize h d deltaX deltaY m)"

section \<open>The registry, the dock and the title bar as one state\<close>

text \<open>
  Window objects have identity: \<^verbatim>\<open>activeModal === modal\<close> compares references, and two
  windows may carry the same title. A window is therefore named by the number it got when
  it was constructed, \<open>heap\<close> maps these numbers to the objects, and \<open>nextId\<close> is the number
  the next window will get (so numbers below \<open>nextId\<close> are the windows constructed so far,
  in order of construction).

  \<open>modals\<close>, \<open>nextZIndex\<close> and \<open>activeModal\<close> are the fields of \<^verbatim>\<open>ModalManager\<close>; the
  JavaScript \<^verbatim>\<open>Map\<close> is an association list in insertion order, where \<^verbatim>\<open>set\<close> on a key
  that is present replaces the value in place and \<^verbatim>\<open>set\<close> on a new key appends.
  \<open>minimizedModals\<close> is the \<^verbatim>\<open>Map\<close> of the \<^verbatim>\<open>Dock\<close> (title to icon), \<open>activeModalTitle\<close>
  the field of \<^verbatim>\<open>TitleBarManager\<close>. \<open>delivered\<close> records every call of one of the four
  callbacks of \<^verbatim>\<open>ModalManager\<close>, in order.
\<close>

datatype notification =
  SelectionChanged string | Minimized string | Restored string | Closed string

record UI =
  heap :: "nat \<Rightarrow> ModalWindow"
  nextId :: nat
  modals :: "(string \<times> nat) list"
  nextZIndex :: int
  activeModal :: "nat option"
  minimizedModals :: "(string \<times> string) list"
  activeModalTitle :: string
  delivered :: "notification list"

definition initial_UI :: UI where
  "initial_UI =
    \<lparr>heap = (\<lambda>_. new_ModalWindow [] 0 0 0 0 []), nextId = 0, modals = [], nextZIndex = 1000,
     activeModal = None, minimizedModals = [], activeModalTitle = [], delivered = []\<rparr>"

text \<open>The registered windows, in the iteration order of the \<^verbatim>\<open>Map\<close>.\<close>

definition getAllModals :: "UI \<Rightarrow> nat list" where
  "getAllModals s = map snd (modals s)"

subsection \<open>Dock and icon lookup\<close>

text \<open>\<^verbatim>\<open>MODAL_ICONS\<close> of \<^verbatim>\<open>constants.ts\<close>, in key order, and \<^verbatim>\<open>DOMUtils.getModalIcon\<close>.\<close>

definition MODAL_ICONS :: "(string \<times> string) list" where
  "MODAL_ICONS =
    [(''hello'', ''U+1F44B''), (''small'', ''U+1F539''), (''large'', ''U+1F537''),
     (''new'', ''U+2728''), (''settings'', ''U+2699 U+FE0F''), (''file'', ''U+1F4C1''),
     (''terminal'', ''U+1F4BB''), (''calculator'', ''U+1F9EE''), (''text'', ''U+1F4DD''),
     (''editor'', ''U+1F4DD''), (''default'', ''U+25A1'')]"

definition getModalIcon :: "string \<Rightarrow> string" where
  "getModalIcon t =
    (case find (\<lambda>(key, icon). str_includes (toLowerCase t) key) MODAL_ICONS of
       Some (key, icon) \<Rightarrow> icon
     | None \<Rightarrow> ''U+25A1'')"

definition addMinimizedModal :: "string \<Rightarrow> string \<Rightarrow> UI \<Rightarrow> UI" where
  "addMinimizedModal t icon s = s\<lparr>minimizedModals := AList.update t icon (minimizedModals s)\<rparr>"

definition removeModal :: "string \<Rightarrow> UI \<Rightarrow> UI" where
  "removeModal t s = s\<lparr>minimizedModals := AList.delete t (minimizedModals s)\<rparr>"

subsection \<open>The callbacks, as \<^verbatim>\<open>CustomUIManager.setupEventHandlers\<close> registers them\<close>

text \<open>
  Selection changes go to \<^verbatim>\<open>TitleBarManager.updateActiveModal\<close>, minimizing adds the dock
  entry, restoring and closing remove it.
\<close>

definition updateActiveModal :: "string \<Rightarrow> UI \<Rightarrow> UI" where
  "updateActiveModal t s = s\<lparr>activeModalTitle := t\<rparr>"

definition modalSelectionCallback :: "string \<Rightarrow> UI \<Rightarrow> UI" where
  "modalSelectionCallback t s =
    updateActiveModal t (s\<lparr>delivered := delivered s @ [SelectionChanged t]\<rparr>)"

definition minimizeCallback :: "string \<Rightarrow> UI \<Rightarrow> UI" where
  "minimizeCallback t s =
    addMinimizedModal t (getModalIcon t) (s\<lparr>delivered := delivered s @ [Minimized t]\<rparr>)"

definition restoreFromDockCallback :: "string \<Rightarrow> UI \<Rightarrow> UI" where
  "restoreFromDockCallback t s = removeModal t (s\<lparr>delivered := delivered s @ [Restored t]\<rparr>)"

definition closeCallback :: "string \<Rightarrow> UI \<Rightarrow> UI" where
  "closeCallback t s = removeModal t (s\<lparr>delivered := delivered s @ [Closed t]\<rparr>)"

subsection \<open>Window operations that notify the registry\<close>

definition update_window :: "nat \<Rightarrow> (ModalWindow \<Rightarrow> ModalWindow) \<Rightarrow> UI \<Rightarrow> UI" where
  "update_window i f s = s\<lparr>heap := (heap s)(i := f (heap s i))\<rparr>"

definition setZIndex :: "int \<Rightarrow> nat \<Rightarrow> UI \<Rightarrow> UI" where
  "setZIndex z i s = update_window i (\<lambda>m. m\<lparr>style_zIndex := z\<rparr>) s"

definition setActive :: "bool \<Rightarrow> nat \<Rightarrow> UI \<Rightarrow> UI" where
  "setActive b i s = update_window i (\<lambda>m. m\<lparr>data_active := Some b\<rparr>) s"

text \<open>
  \<^verbatim>\<open>ModalWindow.minimize\<close> and \<^verbatim>\<open>ModalWindow.restore\<close>. The window's own callbacks are the
  closures \<^verbatim>\<open>createModal\<close> installs, which pass the title on to the registry's callbacks.
\<close>

definition minimize :: "nat \<Rightarrow> UI \<Rightarrow> UI" where
  "minimize i s =
    minimizeCallback (title (heap s i))
      (update_window i (\<lambda>m. m\<lparr>style_display := DisplayNone, isMinimized := True\<rparr>) s)"

definition restore :: "nat \<Rightarrow> UI \<Rightarrow> UI" where
  "restore i s =
    (if isMinimized (heap s i)
     then restoreFromDockCallback (title (heap s i))
            (update_window i (\<lambda>m. m\<lparr>style_display := DisplayFlex, isMinimized := False\<rparr>) s)
     else s)"

subsection \<open>ModalManager\<close>

definition bringModalToFront :: "nat \<Rightarrow> UI \<Rightarrow> UI" where
  "bringModalToFront modal s =
    (let z = max (nextZIndex s + 1) 100;
         s1 = setZIndex z modal (s\<lparr>nextZIndex := z\<rparr>);
         s2 = fold (\<lambda>m st. if m \<noteq> modal then setActive False m st else st)
                (getAllModals s1) s1;
         s3 = setActive True modal (s2\<lparr>activeModal := Some modal\<rparr>)
     in modalSelectionCallback (title (heap s3 modal)) s3)"

text \<open>
  \<^verbatim>\<open>createModal\<close> constructs the window, stores it under its title and brings it to the
  front. The new window has the number \<open>nextId s\<close>.
\<close>

definition createModal ::
  "string \<Rightarrow> real \<Rightarrow> real \<Rightarrow> real \<Rightarrow> real \<Rightarrow> string \<Rightarrow> UI \<Rightarrow> UI" where
  "createModal t w h l tp color s =
    (let modalWindow = nextId s;
         s1 = s\<lparr>heap := (heap s)(modalWindow := new_ModalWindow t w h l tp color),
                nextId := Suc modalWindow\<rparr>;
         s2 = s1\<lparr>modals := AList.update t modalWindow (modals s1)\<rparr>
     in bringModalToFront modalWindow s2)"

text \<open>
  \<^verbatim>\<open>CustomUIManager.createModalFromDefinition\<close>: the window is created at the computed
  position and its element appended to the content area.
\<close>

definition createModalFromDefinition ::
  "real \<Rightarrow> real \<Rightarrow> real \<Rightarrow> real \<Rightarrow> ModalDefinition \<Rightarrow> UI \<Rightarrow> UI" where
  "createModalFromDefinition innerWidth innerHeight random1 random2 modalDef s =
    (let position = calculateRandomModalPosition innerWidth innerHeight random1 random2
                      (md_width modalDef) (md_height modalDef);
         s1 = createModal (md_title modalDef) (md_width modalDef) (md_height modalDef)
                (pos_left position) (pos_top position) (md_titleBarColor modalDef) s
     in update_window (nextId s) (\<lambda>m. m\<lparr>attached := True\<rparr>) s1)"

text \<open>
  \<^verbatim>\<open>closeModal\<close>. The source plays a 200 ms exit transition and does the rest in the timer
  callback; the model is that callback, the point where the state changes.
\<close>

definition closeModal :: "nat \<Rightarrow> UI \<Rightarrow> UI" where
  "closeModal modal s =
    (let s1 = update_window modal (\<lambda>m. m\<lparr>attached := False\<rparr>) s;
         s2 = s1\<lparr>modals := AList.delete (title (heap s1 modal)) (modals s1)\<rparr>;
         s3 = (if activeModal s2 = Some modal
               then (let s' = s2\<lparr>activeModal := None\<rparr>;
                         remainingModals = getAllModals s'
                     in if length remainingModals > 0
                        then bringModalToFront (last remainingModals) s'
                        else s')
               else s2)
     in closeCallback (title (heap s3 modal)) s3)"

definition closeActiveModal :: "UI \<Rightarrow> UI" where
  "closeActiveModal s = (case activeModal s of Some modal \<Rightarrow> closeModal modal s | None \<Rightarrow> s)"

text \<open>
  \<^verbatim>\<open>minimizeAllModals\<close> and \<^verbatim>\<open>restoreAllModals\<close> call \<^verbatim>\<open>forEach\<close> on the live \<^verbatim>\<open>Map\<close>: the
  loop reads the entry at the next position of the map as it is at that moment.
\<close>

function minimizeAllModals_from :: "nat \<Rightarrow> UI \<Rightarrow> UI" where
  "minimizeAllModals_from k s =
    (if k < length (modals s)
     then minimizeAllModals_from (Suc k) (minimize (snd (modals s ! k)) s)
     else s)"
  by pat_completeness auto
termination
  by (relation "measure (\<lambda>(k, s). length (modals s) - k)")
    (auto simp: minimize_def minimizeCallback_def addMinimizedModal_def update_window_def)

function restoreAllModals_from :: "nat \<Rightarrow> UI \<Rightarrow> UI" where
  "restoreAllModals_from k s =
    (if k < length (modals s)
     then restoreAllModals_from (Suc k) (restore (snd (modals s ! k)) s)
     else s)"
  by pat_completeness auto
termination
  by (relation "measure (\<lambda>(k, s). length (modals s) - k)")
    (auto simp: restore_def restoreFromDockCallback_def removeModal_def update_window_def)

definition minimizeAllModals :: "UI \<Rightarrow> UI" where
  "minimizeAllModals s = minimizeAllModals_from 0 s"

definition restoreAllModals :: "UI \<Rightarrow> UI" where
  "restoreAllModals s = restoreAllModals_from 0 s"

text \<open>
  \<^verbatim>\<open>closeAllModals\<close> copies the windows into an array first and closes each element of the
  copy; the timers it starts run in that order.
\<close>

definition closeAllModals :: "UI \<Rightarrow> UI" where
  "closeAllModals s = (let modalsToClose = getAllModals s in fold closeModal modalsToClose s)"

definition resetModalZIndexes :: "UI \<Rightarrow> UI" where
  "resetModalZIndexes s =
    (let (s', zIndex) = fold (\<lambda>modal (st, z). (setZIndex z modal st, z + 1))
                          (getAllModals s) (s, 1000)
     in s'\<lparr>nextZIndex := zIndex\<rparr>)"

definition restoreModalByTitle :: "string \<Rightarrow> UI \<Rightarrow> UI" where
  "restoreModalByTitle t s =
    (case map_of (modals s) t of
       Some modal \<Rightarrow>
         if isMinimized (heap s modal)
         then restoreFromDockCallback t (bringModalToFront modal (restore modal s))
         else s
     | None \<Rightarrow> s)"

definition clearActiveModal :: "UI \<Rightarrow> UI" where
  "clearActiveModal s =
    modalSelectionCallback []
      ((fold (setActive False) (getAllModals s) s)\<lparr>activeModal := None\<rparr>)"

subsection \<open>The title bar's own minimize-all (the app icon)\<close>

text \<open>
  \<^verbatim>\<open>DOMUtils.getAllModals\<close>: the dialogs that are children of the content area, in document
  order. \<^verbatim>\<open>TitleBarManager.minimizeModalToDock\<close> marks the element inactive, starts the
  300 ms animation after which it sets \<^verbatim>\<open>display: none\<close> (\<open>minimizeModalToDock_settled\<close>),
  and dispatches a \<^verbatim>\<open>modalMinimized\<close> event, for which no listener is registered anywhere.
  The app icon's click handler runs \<^verbatim>\<open>minimizeAllModals\<close>, \<^verbatim>\<open>resetToDefaultBranding\<close> and
  dispatches \<^verbatim>\<open>brandingReset\<close>, whose listener is \<^verbatim>\<open>ModalManager.clearActiveModal\<close>.
\<close>

definition DOM_getAllModals :: "UI \<Rightarrow> nat list" where
  "DOM_getAllModals s = filter (\<lambda>i. attached (heap s i)) [0..<nextId s]"

definition minimizeModalToDock :: "nat \<Rightarrow> UI \<Rightarrow> UI" where
  "minimizeModalToDock i s = update_window i (\<lambda>m. m\<lparr>data_active := Some False\<rparr>) s"

definition minimizeModalToDock_settled :: "nat \<Rightarrow> UI \<Rightarrow> UI" where
  "minimizeModalToDock_settled i s = update_window i (\<lambda>m. m\<lparr>style_display := DisplayNone\<rparr>) s"

definition titleBar_minimizeAllModals :: "UI \<Rightarrow> UI" where
  "titleBar_minimizeAllModals s =
    (fold minimizeModalToDock (DOM_getAllModals s) s)\<lparr>activeModalTitle := []\<rparr>"

definition resetToDefaultBranding :: "UI \<Rightarrow> UI" where
  "resetToDefaultBranding s = s\<lparr>activeModalTitle := []\<rparr>"

definition appIcon_click :: "UI \<Rightarrow> UI" where
  "appIcon_click s =
    (let allModals = DOM_getAllModals s;
         s1 = clearActiveModal (resetToDefaultBranding (titleBar_minimizeAllModals s))
     in fold minimizeModalToDock_settled allModals s1)"

subsection \<open>The title bar's tabs\<close>

text \<open>
  \<^verbatim>\<open>DOMUtils.getModalByTitle\<close>: the first dialog of the content area, in document order,
  whose \<^verbatim>\<open>data-dialog-title\<close> is the title. \<^verbatim>\<open>TitleBarManager.restoreModalFromDock\<close> is what
  the click listener of a tab calls when the tab was drawn for a hidden dialog; the method
  itself tests that the dialog is hidden. It sets \<^verbatim>\<open>display: block\<close>, starts the 300 ms
  animation after which it sets \<^verbatim>\<open>data-active\<close> to \<^verbatim>\<open>true\<close> and calls
  \<^verbatim>\<open>updateActiveModal\<close> (\<open>restoreModalFromDock_settled\<close>), and dispatches a
  \<^verbatim>\<open>modalRestored\<close> event, for which no listener is registered anywhere. Neither the
  registry nor the window object is told.
\<close>

definition DOM_getModalByTitle :: "string \<Rightarrow> UI \<Rightarrow> nat option" where
  "DOM_getModalByTitle t s = find (\<lambda>i. title (heap s i) = t) (DOM_getAllModals s)"

definition restoreModalFromDock_settled :: "nat \<Rightarrow> string \<Rightarrow> UI \<Rightarrow> UI" where
  "restoreModalFromDock_settled targetModal modalTitle s =
    updateActiveModal modalTitle
      (update_window targetModal (\<lambda>m. m\<lparr>data_active := Some True\<rparr>) s)"

definition restoreModalFromDock :: "string \<Rightarrow> UI \<Rightarrow> UI" where
  "restoreModalFromDock modalTitle s =
    (case DOM_getModalByTitle modalTitle s of
       Some targetModal \<Rightarrow>
         if style_display (heap s targetModal) = DisplayNone
         then restoreModalFromDock_settled targetModal modalTitle
                (update_window targetModal (\<lambda>m. m\<lparr>style_display := DisplayBlock\<rparr>) s)
         else s
     | None \<Rightarrow> s)"

section \<open>Commands and reachable states\<close>

text \<open>
  What the user interface can ask of the registry and of a window, each with the handler it
  ends in: launching from the catalog (\<^verbatim>\<open>createModalFromDefinition\<close>), \<^verbatim>\<open>createModal\<close>
  itself, a mouse-down on a window (\<^verbatim>\<open>bringModalToFront\<close>), the window buttons
  (\<^verbatim>\<open>minimize\<close>, \<^verbatim>\<open>toggleMaximize\<close>, close), a resize step, a drag, a click on the
  background (\<^verbatim>\<open>clearActiveModal\<close>), a dock entry (\<^verbatim>\<open>restoreModalByTitle\<close>), \<^verbatim>\<open>restore\<close>, the
  menu actions of \<^verbatim>\<open>handleMenuAction\<close>, the title bar's app icon and the title bar's tabs.
  A window argument is a window object, that is, a number below \<open>nextId\<close>. A click on a tab
  that was drawn for a visible dialog dispatches a mouse-down on that dialog (\<open>Focus\<close>); a
  click on a tab that was drawn for a hidden dialog calls \<^verbatim>\<open>restoreModalFromDock\<close> with the
  tab's title (\<open>TabRestore\<close>).
\<close>

datatype command =
    Launch real real real real ModalDefinition
  | CreateModal string real real real real string
  | Focus nat
  | Close nat
  | ClearActive
  | Minimize nat
  | Restore nat
  | ToggleMaximize Host nat
  | Resize Host handle real real nat
  | Drag Host real real nat
  | RestoreByTitle string
  | CloseActive
  | MinimizeAll
  | RestoreAll
  | BringAllToFront
  | CloseAll
  | AppIconClick
  | TabRestore string

fun run :: "command \<Rightarrow> UI \<Rightarrow> UI" where
  "run (Launch iw ih r1 r2 d) s = createModalFromDefinition iw ih r1 r2 d s"
| "run (CreateModal t w h l tp color) s = createModal t w h l tp color s"
| "run (Focus i) s = bringModalToFront i s"
| "run (Close i) s = closeModal i s"
| "run ClearActive s = clearActiveModal s"
| "run (Minimize i) s = minimize i s"
| "run (Restore i) s = restore i s"
| "run (ToggleMaximize h i) s = update_window i (toggleMaximize h) s"
| "run (Resize h d dx dy i) s = update_window i (resize h d dx dy) s"
| "run (Drag h dx dy i) s = update_window i (drag h dx dy) s"
| "run (RestoreByTitle t) s = restoreModalByTitle t s"
| "run CloseActive s = closeActiveModal s"
| "run MinimizeAll s = minimizeAllModals s"
| "run RestoreAll s = restoreAllModals s"
| "run BringAllToFront s = resetModalZIndexes s"
| "run CloseAll s = closeAllModals s"
| "run AppIconClick s = appIcon_click s"
| "run (TabRestore t) s = restoreModalFromDock t s"

fun allowed :: "command \<Rightarrow> UI \<Rightarrow> bool" where
  "allowed (Focus i) s = (i < nextId s)"
| "allowed (Close i) s = (i < nextId s)"
| "allowed (Minimize i) s = (i < nextId s)"
| "allowed (Restore i) s = (i < nextId s)"
| "allowed (ToggleMaximize h i) s = (i < nextId s)"
| "allowed (Resize h d dx dy i) s = (i < nextId s)"
| "allowed (Drag h dx dy i) s = (i < nextId s)"
| "allowed c s = True"

inductive reachable :: "UI \<Rightarrow> bool" where
  initial: "reachable initial_UI"
| step: "reachable s \<Longrightarrow> allowed c s \<Longrightarrow> reachable (run c s)"

text \<open>Running a list of commands, for concrete scenarios.\<close>

fun runs :: "command list \<Rightarrow> UI \<Rightarrow> UI" where
  "runs [] s = s"
| "runs (c # cs) s = runs cs (run c s)"

subsection \<open>The predicates the claims speak about\<close>

definition registered :: "UI \<Rightarrow> nat \<Rightarrow> bool" where
  "registered s i = (i \<in> set (getAllModals s))"

definition is_active :: "UI \<Rightarrow> nat \<Rightarrow> bool" where
  "is_active s i = (data_active (heap s i) = Some True)"

definition zIndex_of :: "UI \<Rightarrow> nat \<Rightarrow> int" where
  "zIndex_of s i = style_zIndex (heap s i)"

text \<open>
  At most one registered window is active, the window the registry records as active is
  active, and an active registered window is the recorded one.
\<close>

definition single_active :: "UI \<Rightarrow> bool" where
  "single_active s =
    ((\<forall>i j. registered s i \<and> is_active s i \<and> registered s j \<and> is_active s j \<longrightarrow> i = j)
     \<and> (\<forall>a. activeModal s = Some a \<longrightarrow>
            is_active s a \<and> (\<forall>i. registered s i \<and> is_active s i \<longrightarrow> i = a))
     \<and> (\<forall>i. registered s i \<and> is_active s i \<longrightarrow> activeModal s = Some i))"

text \<open>
  The registry is well formed: every entry is a constructed window filed under its own
  title, no title and no window occurs twice, and the recorded active window is a
  constructed window.
\<close>

definition well_formed :: "UI \<Rightarrow> bool" where
  "well_formed s =
    (list_all (\<lambda>(t, i). i < nextId s \<and> title (heap s i) = t) (modals s)
     \<and> distinct (map fst (modals s)) \<and> distinct (map snd (modals s))
     \<and> (case activeModal s of Some a \<Rightarrow> a < nextId s | None \<Rightarrow> True))"

definition zIndex_bounded :: "UI \<Rightarrow> bool" where
  "zIndex_bounded s = list_all (\<lambda>i. zIndex_of s i \<le> nextZIndex s) (getAllModals s)"

text \<open>\<open>w\<close> is in front: its z-index is the maximum, and every other window is strictly below.\<close>

definition in_front :: "UI \<Rightarrow> nat \<Rightarrow> bool" where
  "in_front s w =
    (zIndex_of s w = Max (zIndex_of s ` set (getAllModals s))
     \<and> list_all (\<lambda>i. i = w \<or> zIndex_of s i < zIndex_of s w) (getAllModals s))"

section \<open>Auxiliary definitions for the proofs and the scenarios\<close>

declare minimizeAllModals_from.simps [simp del]

declare restoreAllModals_from.simps [simp del]

text \<open>
  The registry state the timer callback of \<^verbatim>\<open>closeModal\<close> has after detaching the element
  and deleting the title from the map, before it looks for another window to activate.
\<close>

definition removed :: "nat \<Rightarrow> UI \<Rightarrow> UI" where
  "removed modal s =
    (update_window modal (\<lambda>m. m\<lparr>attached := False\<rparr>) s)
      \<lparr>modals := AList.delete (title (heap s modal)) (modals s)\<rparr>"

text \<open>One round of the loop of \<^verbatim>\<open>resetModalZIndexes\<close>.\<close>

definition reset_step :: "nat \<Rightarrow> UI \<times> int \<Rightarrow> UI \<times> int" where
  "reset_step = (\<lambda>modal (st, z). (setZIndex z modal st, z + 1))"

text \<open>The invariant that is proved of every reachable state.\<close>

definition invariant :: "UI \<Rightarrow> bool" where
  "invariant s = (well_formed s \<and> zIndex_bounded s)"

text \<open>The commands that go through the registry or a window object: all but the tab restore.\<close>

fun via_registry :: "command \<Rightarrow> bool" where
  "via_registry (TabRestore t) = False"
| "via_registry c = True"

text \<open>A list of commands is allowed when each is allowed in the state it runs in.\<close>

fun allowed_all :: "command list \<Rightarrow> UI \<Rightarrow> bool" where
  "allowed_all [] s = True"
| "allowed_all (c # cs) s = (allowed c s \<and> allowed_all cs (run c s))"

text \<open>
  A creation command is fresh when its title is not registered at that moment (the
  precondition the specification puts on \<open>create\<close>).
\<close>

fun fresh_title :: "command \<Rightarrow> UI \<Rightarrow> bool" where
  "fresh_title (Launch iw ih r1 r2 d) s = (md_title d \<notin> fst ` set (modals s))"
| "fresh_title (CreateModal t w h l tp color) s = (t \<notin> fst ` set (modals s))"
| "fresh_title c s = True"

text \<open>The east and the south edge of a rectangle.\<close>

definition east_edge :: "Rect \<Rightarrow> real" where
  "east_edge r = r_left r + r_width r"

definition south_edge :: "Rect \<Rightarrow> real" where
  "south_edge r = r_top r + r_height r"

text \<open>
  The far edges of \<open>new\<close> are those of \<open>st\<close>: with a west handle the east edge, with a north
  handle the south edge; otherwise left and top are kept.
\<close>

definition far_edges_fixed :: "handle \<Rightarrow> Rect \<Rightarrow> Rect \<Rightarrow> bool" where
  "far_edges_fixed d st new =
    ((if d \<in> {Hnw, Hsw, Hw} then east_edge new = east_edge st else r_left new = r_left st)
     \<and> (if d \<in> {Hnw, Hn, Hne} then south_edge new = south_edge st
        else r_top new = r_top st))"

subsection \<open>Scenarios\<close>

text \<open>
  Scenario A of the specification (two windows created), A followed by the menu's
  bring-all-to-front, scenario B (one window, minimized), A with the first window focused
  (scenario D), a registry where the title \<open>Terminal\<close> was created twice, one window
  launched from the catalog, the same entry launched twice, and two windows launched from
  the catalog of which the first was then minimized and the second clicked.
\<close>

definition scenario_A :: UI where
  "scenario_A =
    runs [CreateModal ''Alpha'' 600 400 100 100 ''#007acc'', CreateModal ''Beta'' 400 300 200 200 ''#8e44ad'']
      initial_UI"

definition scenario_reset :: UI where
  "scenario_reset = run BringAllToFront scenario_A"

definition scenario_B :: UI where
  "scenario_B = run (Minimize 0) (run (CreateModal ''Alpha'' 600 400 100 100 ''#007acc'') initial_UI)"

definition scenario_D :: UI where
  "scenario_D = run (Focus 0) scenario_A"

definition scenario_duplicate :: UI where
  "scenario_duplicate =
    runs [CreateModal ''Terminal'' 600 400 100 100 ''#2c3e50'', CreateModal ''Settings'' 500 400 150 150 ''#95a5a6'',
          CreateModal ''Calculator'' 300 400 200 200 ''#e74c3c'', CreateModal ''Terminal'' 600 400 250 250 ''#2c3e50'',
          Focus 2] initial_UI"

definition terminal :: ModalDefinition where
  "terminal = \<lparr>md_title = ''Terminal'', md_width = 600, md_height = 400,
      md_titleBarColor = ''#2c3e50'', md_icon = ''U+1F4BB''\<rparr>"

definition scenario_terminal :: UI where
  "scenario_terminal = run (Launch 1280 800 (1/2) (1/4) terminal) initial_UI"

definition scenario_twice :: UI where
  "scenario_twice = run (Launch 1280 800 (1/4) (1/2) terminal) scenario_terminal"

definition settings :: ModalDefinition where
  "settings = \<lparr>md_title = ''Settings'', md_width = 500, md_height = 400,
      md_titleBarColor = ''#95a5a6'', md_icon = ''U+2699 U+FE0F''\<rparr>"

definition scenario_tab :: UI where
  "scenario_tab =
    runs [Launch 1280 800 (1/2) (1/4) terminal, Launch 1280 800 (1/4) (1/2) settings,
          Focus 0, Minimize 0, Focus 1] initial_UI"

section \<open>Properties of the search filter\<close>

lemma str_includes_sublist: "str_includes s t = sublist t s"
  by (induction s) (auto simp: sublist_Cons_right)

lemma is_space_lower_char: "is_space (lower_char c) = is_space c"
proof (cases "map_of letter_table c")
  case None
  then show ?thesis by (simp add: lower_char_def)
next
  case (Some l)
  then have "(c, l) \<in> set letter_table" by (rule map_of_SomeD)
  then have "\<not> is_space c \<and> \<not> is_space l"
    unfolding letter_table_def is_space_def by auto
  with Some show ?thesis by (simp add: lower_char_def)
qed

lemma dropWhile_space_lower:
  "dropWhile is_space (map lower_char s) = map lower_char (dropWhile is_space s)"
  by (induction s) (simp_all add: is_space_lower_char)

lemma trim_toLowerCase: "trim (toLowerCase s) = toLowerCase (trim s)"
  by (simp add: trim_def toLowerCase_def dropWhile_space_lower rev_map)

lemma filterModals_view:
  "filteredModals (filterModals lp) =
     filter (\<lambda>d. sublist (trim (toLowerCase (searchInput lp))) (toLowerCase (md_title d)))
       (modalDefinitions lp)"
  by (simp add: filterModals_def Let_def str_includes_sublist)

text \<open>
  C7, as amended: for every query \<open>q\<close>, \<open>setQuery q\<close> makes the filtered view exactly the
  catalog entries whose title contains the \<^emph>\<open>trimmed\<close> query case-insensitively, in catalog
  order (a subsequence of the catalog); a query that is empty once trimmed, the empty query
  among them, yields the full catalog.
\<close>

theorem setQuery_filters_trimmed:
  "filteredModals (setQuery q lp) = spec_filtered (modalDefinitions lp) (trim q)
   \<and> subseq (filteredModals (setQuery q lp)) (modalDefinitions lp)
   \<and> filteredModals (setQuery [] lp) = modalDefinitions lp
   \<and> modalDefinitions (setQuery q lp) = modalDefinitions lp"
proof -
  have view: "filteredModals (setQuery q lp) = spec_filtered (modalDefinitions lp) (trim q)"
    by (simp add: setQuery_def filterModals_view spec_filtered_def contains_ci_def
        trim_toLowerCase)
  have "subseq (filteredModals (setQuery q lp)) (modalDefinitions lp)"
    unfolding view spec_filtered_def by (rule subseq_filter_left)
  moreover have "filteredModals (setQuery [] lp) = modalDefinitions lp"
    by (simp add: setQuery_def filterModals_def trim_def toLowerCase_def)
  moreover have "modalDefinitions (setQuery q lp) = modalDefinitions lp"
    by (simp add: setQuery_def filterModals_def Let_def)
  ultimately show ?thesis using view by simp
qed

text \<open>
  C7 as stated fails: the query made of one space is trimmed to the empty term, so the code
  shows the whole catalog, \<open>Settings\<close> included, while only five titles contain a space.
\<close>

theorem setQuery_space_counterexample:
  "filteredModals (setQuery '' '' new_Launchpad) \<noteq> spec_filtered catalog '' ''"
proof -
  have "length (filteredModals (setQuery '' '' new_Launchpad)) = 8"
    by code_simp
  moreover have "length (spec_filtered catalog '' '') = 5"
    by code_simp
  ultimately show ?thesis by auto
qed

section \<open>Properties of the placement\<close>

text \<open>
  C9: the claimed upper bounds fail. With a viewport of 1000 by 800, the catalog's
  600 by 400 window and both random values 7/8, the code returns left 356.25 and top 312.5,
  above \<open>max 50 (1000 - 600 - 50) = 350\<close> and \<open>max 50 (800 - 400 - 100) = 300\<close>.
\<close>

theorem calculateRandomModalPosition_exceeds_max:
  "pos_left (calculateRandomModalPosition 1000 800 (7/8) (7/8) 600 400) = 356.25
   \<and> pos_top (calculateRandomModalPosition 1000 800 (7/8) (7/8) 600 400) = 312.5
   \<and> pos_left (calculateRandomModalPosition 1000 800 (7/8) (7/8) 600 400)
        > max 50 (1000 - 600 - 50)
   \<and> pos_top (calculateRandomModalPosition 1000 800 (7/8) (7/8) 600 400)
        > max 50 (800 - 400 - 100)"
  by (simp add: calculateRandomModalPosition_def)

text \<open>What the code guarantees: the result lies within 50 of the computed maximum.\<close>

lemma calculateRandomModalPosition_range:
  assumes "0 \<le> r1" "r1 < 1" "0 \<le> r2" "r2 < 1"
  shows "50 \<le> pos_left (calculateRandomModalPosition iw ih r1 r2 w h)
       \<and> pos_left (calculateRandomModalPosition iw ih r1 r2 w h) < max 50 (iw - w - 50) + 50
       \<and> 50 \<le> pos_top (calculateRandomModalPosition iw ih r1 r2 w h)
       \<and> pos_top (calculateRandomModalPosition iw ih r1 r2 w h) < max 50 (ih - h - 100) + 50"
proof -
  have pos: "0 < max 50 (iw - w - 50)" "0 < max 50 (ih - h - 100)" by simp_all
  have "r1 * max 50 (iw - w - 50) < 1 * max 50 (iw - w - 50)"
    using assms(2) pos(1) by (rule mult_strict_right_mono)
  moreover have "r2 * max 50 (ih - h - 100) < 1 * max 50 (ih - h - 100)"
    using assms(4) pos(2) by (rule mult_strict_right_mono)
  moreover have "0 \<le> r1 * max 50 (iw - w - 50)" "0 \<le> r2 * max 50 (ih - h - 100)"
    using assms(1,3) pos by (simp_all add: less_imp_le)
  ultimately show ?thesis
    by (simp add: calculateRandomModalPosition_def Let_def)
qed

section \<open>Properties of the registry\<close>

subsection \<open>The operations in closed form\<close>

lemma fold_deactivate:
  "fold (\<lambda>m st. if m \<noteq> modal then setActive False m st else st) xs s =
   s\<lparr>heap := (\<lambda>i. if i \<in> set xs \<and> i \<noteq> modal then (heap s i)\<lparr>data_active := Some False\<rparr>
                  else heap s i)\<rparr>"
proof (induction xs arbitrary: s)
  case Nil
  show ?case by simp
next
  case (Cons x xs)
  show ?case
    by (simp add: Cons.IH setActive_def update_window_def fun_eq_iff)
qed

lemma fold_setActive_False:
  "fold (setActive False) xs s =
   s\<lparr>heap := (\<lambda>i. if i \<in> set xs then (heap s i)\<lparr>data_active := Some False\<rparr> else heap s i)\<rparr>"
proof (induction xs arbitrary: s)
  case Nil
  show ?case by simp
next
  case (Cons x xs)
  have "fold (setActive False) (x # xs) s = fold (setActive False) xs (setActive False x s)"
    by simp
  also have "\<dots> = (setActive False x s)\<lparr>heap := (\<lambda>i. if i \<in> set xs
      then (heap (setActive False x s) i)\<lparr>data_active := Some False\<rparr>
      else heap (setActive False x s) i)\<rparr>"
    by (rule Cons.IH)
  also have "\<dots> = s\<lparr>heap := (\<lambda>i. if i \<in> set (x # xs)
      then (heap s i)\<lparr>data_active := Some False\<rparr> else heap s i)\<rparr>"
    by (simp add: setActive_def update_window_def fun_eq_iff)
  finally show ?case .
qed

lemma bringModalToFront_eq:
  "bringModalToFront modal s =
   s\<lparr>nextZIndex := max (nextZIndex s + 1) 100,
     heap := (\<lambda>i. if i = modal
                  then (heap s modal)\<lparr>style_zIndex := max (nextZIndex s + 1) 100,
                                       data_active := Some True\<rparr>
                  else if i \<in> set (getAllModals s)
                       then (heap s i)\<lparr>data_active := Some False\<rparr>
                       else heap s i),
     activeModal := Some modal,
     delivered := delivered s @ [SelectionChanged (title (heap s modal))],
     activeModalTitle := title (heap s modal)\<rparr>"
  by (simp add: bringModalToFront_def Let_def fold_deactivate getAllModals_def setZIndex_def
      setActive_def update_window_def modalSelectionCallback_def updateActiveModal_def
      fun_eq_iff)

lemma clearActiveModal_eq:
  "clearActiveModal s =
   s\<lparr>heap := (\<lambda>i. if i \<in> set (getAllModals s) then (heap s i)\<lparr>data_active := Some False\<rparr>
                  else heap s i),
     activeModal := None,
     delivered := delivered s @ [SelectionChanged []],
     activeModalTitle := []\<rparr>"
  by (simp add: clearActiveModal_def fold_setActive_False modalSelectionCallback_def
      updateActiveModal_def)

lemma minimize_eq:
  "minimize i s =
   s\<lparr>heap := (heap s)(i := (heap s i)\<lparr>style_display := DisplayNone, isMinimized := True\<rparr>),
     delivered := delivered s @ [Minimized (title (heap s i))],
     minimizedModals := AList.update (title (heap s i)) (getModalIcon (title (heap s i)))
                          (minimizedModals s)\<rparr>"
  by (simp add: minimize_def minimizeCallback_def addMinimizedModal_def update_window_def)

lemma restore_eq:
  "restore i s =
   (if isMinimized (heap s i)
    then s\<lparr>heap := (heap s)(i := (heap s i)\<lparr>style_display := DisplayFlex, isMinimized := False\<rparr>),
           delivered := delivered s @ [Restored (title (heap s i))],
           minimizedModals := AList.delete (title (heap s i)) (minimizedModals s)\<rparr>
    else s)"
  by (simp add: restore_def restoreFromDockCallback_def removeModal_def update_window_def)

subsection \<open>Association lists as JavaScript maps\<close>

lemma update_entries:
  "set (AList.update k v al) \<subseteq> insert (k, v) (set al)"
  by (induction al) auto

lemma update_has_entry: "(k, v) \<in> set (AList.update k v al)"
  by (induction al) auto

lemma update_snd_distinct:
  "distinct (map snd al) \<Longrightarrow> v \<notin> snd ` set al \<Longrightarrow> distinct (map snd (AList.update k v al))"
proof (induction al)
  case Nil
  show ?case by simp
next
  case (Cons p al)
  have "snd ` set (AList.update k v al) \<subseteq> insert v (snd ` set al)"
    using update_entries [of k v al] by force
  with Cons show ?case by (auto simp: image_iff)
qed

lemma update_fresh: "k \<notin> fst ` set al \<Longrightarrow> AList.update k v al = al @ [(k, v)]"
  by (induction al) auto

lemma delete_entries: "set (AList.delete k al) = {p \<in> set al. fst p \<noteq> k}"
  by (auto simp: AList.delete_eq)

lemma delete_snd_distinct: "distinct (map snd al) \<Longrightarrow> distinct (map snd (AList.delete k al))"
  by (simp add: AList.delete_eq distinct_map_filter)

lemma delete_own_title:
  assumes "distinct (map fst al)" "(k, v) \<in> set al" "distinct (map snd al)"
  shows "map snd (AList.delete k al) = filter (\<lambda>i. i \<noteq> v) (map snd al)"
  using assms
proof (induction al)
  case Nil
  then show ?case by simp
next
  case (Cons p al)
  show ?case
  proof (cases "p = (k, v)")
    case True
    with Cons.prems have "k \<notin> fst ` set al" "v \<notin> snd ` set al" by auto
    then have "AList.delete k al = al" "filter (\<lambda>i. i \<noteq> v) (map snd al) = map snd al"
      by (auto simp: AList.delete_eq filter_id_conv image_iff)
    with True show ?thesis by (simp add: AList.delete_eq)
  next
    case False
    with Cons.prems have in_al: "(k, v) \<in> set al" by auto
    with Cons.prems have "fst p \<noteq> k" "snd p \<noteq> v" by (auto simp: image_iff)
    moreover have "map snd (AList.delete k al) = filter (\<lambda>i. i \<noteq> v) (map snd al)"
      using Cons.IH Cons.prems in_al by simp
    ultimately show ?thesis by (cases p) (simp add: AList.delete_eq)
  qed
qed

subsection \<open>Frame lemmas: what leaves the invariants alone\<close>

lemma single_active_cong:
  assumes "getAllModals s' = getAllModals s" "activeModal s' = activeModal s"
    and "\<And>i. data_active (heap s' i) = data_active (heap s i)"
  shows "single_active s' = single_active s"
  using assms by (simp add: single_active_def registered_def is_active_def)

lemma well_formed_cong:
  assumes "modals s' = modals s" "activeModal s' = activeModal s" "nextId s' = nextId s"
    and "\<And>i. title (heap s' i) = title (heap s i)"
  shows "well_formed s' = well_formed s"
  using assms by (simp add: well_formed_def split: option.split)

lemma zIndex_bounded_cong:
  assumes "getAllModals s' = getAllModals s" "nextZIndex s' = nextZIndex s"
    and "\<And>i. style_zIndex (heap s' i) = style_zIndex (heap s i)"
  shows "zIndex_bounded s' = zIndex_bounded s"
  using assms by (simp add: zIndex_bounded_def zIndex_of_def)

lemma invariant_cong:
  assumes "modals s' = modals s" "activeModal s' = activeModal s" "nextId s' = nextId s"
    and "nextZIndex s' = nextZIndex s"
    and "\<And>i. title (heap s' i) = title (heap s i)"
    and "\<And>i. style_zIndex (heap s' i) = style_zIndex (heap s i)"
  shows "invariant s' = invariant s"
  unfolding invariant_def
  using well_formed_cong [of s' s] zIndex_bounded_cong [of s' s] assms
  by (simp add: getAllModals_def)

lemma invariant_initial: "invariant initial_UI"
  by (simp add: invariant_def well_formed_def zIndex_bounded_def initial_UI_def getAllModals_def)

lemma invariant_minimize: "invariant (minimize i s) = invariant s"
  by (rule invariant_cong) (simp_all add: minimize_eq)

lemma invariant_restore: "invariant (restore i s) = invariant s"
  by (rule invariant_cong) (simp_all add: restore_eq)

lemma toggleMaximize_frame:
  "title (toggleMaximize h m) = title m \<and> data_active (toggleMaximize h m) = data_active m
   \<and> style_zIndex (toggleMaximize h m) = style_zIndex m
   \<and> isMinimized (toggleMaximize h m) = isMinimized m
   \<and> attached (toggleMaximize h m) = attached m"
  by (simp add: toggleMaximize_def maximize_def restoreSize_def Let_def split: option.split)

lemma resize_frame:
  "title (resize h d dx dy m) = title m \<and> data_active (resize h d dx dy m) = data_active m
   \<and> style_zIndex (resize h d dx dy m) = style_zIndex m
   \<and> isMinimized (resize h d dx dy m) = isMinimized m
   \<and> attached (resize h d dx dy m) = attached m"
  by (simp add: resize_def Let_def)

lemma drag_frame:
  "title (drag h dx dy m) = title m \<and> data_active (drag h dx dy m) = data_active m
   \<and> style_zIndex (drag h dx dy m) = style_zIndex m
   \<and> isMinimized (drag h dx dy m) = isMinimized m
   \<and> attached (drag h dx dy m) = attached m"
  by (simp add: drag_def Let_def)

lemma invariant_drag: "invariant (update_window i (drag h dx dy) s) = invariant s"
  by (rule invariant_cong) (simp_all add: update_window_def drag_frame)

lemma invariant_toggleMaximize: "invariant (update_window i (toggleMaximize h) s) = invariant s"
  by (rule invariant_cong) (simp_all add: update_window_def toggleMaximize_frame)

lemma invariant_resize: "invariant (update_window i (resize h d dx dy) s) = invariant s"
  by (rule invariant_cong) (simp_all add: update_window_def resize_frame)

subsection \<open>Focus\<close>

lemma single_active_bringModalToFront: "single_active (bringModalToFront m s)"
  by (simp add: single_active_def registered_def is_active_def bringModalToFront_eq
      getAllModals_def)

lemma single_active_clearActiveModal: "single_active (clearActiveModal s)"
  by (simp add: single_active_def registered_def is_active_def clearActiveModal_eq
      getAllModals_def)

lemma well_formed_bringModalToFront:
  assumes "well_formed s" "m < nextId s"
  shows "well_formed (bringModalToFront m s)"
  using assms
  by (auto simp: well_formed_def bringModalToFront_eq list_all_iff)

lemma zIndex_bringModalToFront:
  assumes "list_all (\<lambda>i. i = m \<or> zIndex_of s i \<le> nextZIndex s) (getAllModals s)"
  shows "zIndex_bounded (bringModalToFront m s)
         \<and> list_all (\<lambda>i. i = m \<or> zIndex_of (bringModalToFront m s) i
                                  < zIndex_of (bringModalToFront m s) m)
             (getAllModals (bringModalToFront m s))"
  using assms
  by (auto simp: zIndex_bounded_def zIndex_of_def bringModalToFront_eq list_all_iff
      getAllModals_def)

lemma invariant_bringModalToFront:
  assumes "invariant s" "m < nextId s"
  shows "invariant (bringModalToFront m s)"
proof -
  have "list_all (\<lambda>i. i = m \<or> zIndex_of s i \<le> nextZIndex s) (getAllModals s)"
    using assms(1) by (auto simp: invariant_def zIndex_bounded_def list_all_iff)
  then show ?thesis
    using assms well_formed_bringModalToFront [of s m] zIndex_bringModalToFront [of m s]
    by (simp add: invariant_def)
qed

lemma invariant_clearActiveModal:
  assumes "invariant s"
  shows "invariant (clearActiveModal s)"
  using assms
  by (auto simp: invariant_def well_formed_def zIndex_bounded_def zIndex_of_def
      clearActiveModal_eq list_all_iff getAllModals_def)

subsection \<open>Creating a window\<close>

lemma registered_below_nextId:
  assumes "well_formed s" "i \<in> set (getAllModals s)"
  shows "i < nextId s"
  using assms by (auto simp: well_formed_def list_all_iff getAllModals_def)

lemma invariant_createModal:
  assumes "invariant s"
  shows "invariant (createModal t w h l tp color s)"
proof -
  define n where "n = nextId s"
  define s2 where "s2 = s\<lparr>heap := (heap s)(n := new_ModalWindow t w h l tp color),
      nextId := Suc n, modals := AList.update t n (modals s)\<rparr>"
  have create: "createModal t w h l tp color s = bringModalToFront n s2"
    by (simp add: createModal_def Let_def s2_def n_def)
  have wf: "well_formed s" and za: "zIndex_bounded s"
    using assms by (simp_all add: invariant_def)
  have old: "\<And>k i. (k, i) \<in> set (modals s) \<Longrightarrow> i < n \<and> title (heap s i) = k"
    using wf by (auto simp: well_formed_def list_all_iff n_def)
  then have fresh: "n \<notin> snd ` set (modals s)" by force
  have entries: "set (modals s2) \<subseteq> insert (t, n) (set (modals s))"
    using update_entries [of t n "modals s"] by (simp add: s2_def)
  have "list_all (\<lambda>(k, i). i < nextId s2 \<and> title (heap s2 i) = k) (modals s2)"
    unfolding list_all_iff
  proof
    fix p assume "p \<in> set (modals s2)"
    with entries have "p = (t, n) \<or> p \<in> set (modals s)" by auto
    then show "case p of (k, i) \<Rightarrow> i < nextId s2 \<and> title (heap s2 i) = k"
    proof
      assume "p = (t, n)"
      then show ?thesis by (simp add: s2_def new_ModalWindow_def)
    next
      assume "p \<in> set (modals s)"
      then show ?thesis using old [of "fst p" "snd p"]
        by (cases p) (auto simp: s2_def)
    qed
  qed
  moreover have "distinct (map fst (modals s2))"
    using wf by (simp add: s2_def well_formed_def distinct_update)
  moreover have "distinct (map snd (modals s2))"
    using wf fresh by (simp add: s2_def well_formed_def update_snd_distinct)
  moreover have "case activeModal s2 of Some a \<Rightarrow> a < nextId s2 | None \<Rightarrow> True"
    using wf by (auto simp: s2_def well_formed_def n_def split: option.splits)
  ultimately have wf2: "well_formed s2" by (simp add: well_formed_def)
  have "n < nextId s2" by (simp add: s2_def)
  with wf2 have "well_formed (bringModalToFront n s2)"
    by (rule well_formed_bringModalToFront)
  moreover have "list_all (\<lambda>i. i = n \<or> zIndex_of s2 i \<le> nextZIndex s2) (getAllModals s2)"
    unfolding list_all_iff
  proof
    fix i assume "i \<in> set (getAllModals s2)"
    then obtain k where "(k, i) \<in> set (modals s2)" by (auto simp: getAllModals_def)
    with entries have "i = n \<or> (k, i) \<in> set (modals s)" by auto
    then show "i = n \<or> zIndex_of s2 i \<le> nextZIndex s2"
    proof
      assume "i = n" then show ?thesis by simp
    next
      assume reg: "(k, i) \<in> set (modals s)"
      then have "i \<noteq> n" using old by force
      moreover have "zIndex_of s i \<le> nextZIndex s"
        using za reg by (force simp: zIndex_bounded_def list_all_iff getAllModals_def)
      ultimately show ?thesis by (simp add: s2_def zIndex_of_def)
    qed
  qed
  then have "zIndex_bounded (bringModalToFront n s2)"
    using zIndex_bringModalToFront [of n s2] by simp
  ultimately show ?thesis
    by (simp add: invariant_def create)
qed

lemma invariant_attach:
  "invariant (update_window i (\<lambda>m. m\<lparr>attached := b\<rparr>) s) = invariant s"
  by (rule invariant_cong) (simp_all add: update_window_def)

lemma invariant_createModalFromDefinition:
  assumes "invariant s"
  shows "invariant (createModalFromDefinition iw ih r1 r2 d s)"
  using invariant_createModal [OF assms]
  by (simp add: createModalFromDefinition_def Let_def invariant_attach)

subsection \<open>Closing a window\<close>

lemma title_bringModalToFront [simp]:
  "title (heap (bringModalToFront m s) i) = title (heap s i)"
  by (simp add: bringModalToFront_eq)

lemma closeModal_eq:
  "closeModal modal s =
   closeCallback (title (heap s modal))
     (if activeModal s = Some modal
      then (if getAllModals (removed modal s) = []
            then (removed modal s)\<lparr>activeModal := None\<rparr>
            else bringModalToFront (last (getAllModals (removed modal s)))
                   ((removed modal s)\<lparr>activeModal := None\<rparr>))
      else removed modal s)"
  by (simp add: closeModal_def Let_def removed_def update_window_def getAllModals_def)

lemma invariant_closeCallback: "invariant (closeCallback t s) = invariant s"
  by (rule invariant_cong) (simp_all add: closeCallback_def removeModal_def)

lemma invariant_restoreFromDockCallback: "invariant (restoreFromDockCallback t s) = invariant s"
  by (rule invariant_cong) (simp_all add: restoreFromDockCallback_def removeModal_def)

lemma removed_simps [simp]:
  "nextId (removed m s) = nextId s"
  "nextZIndex (removed m s) = nextZIndex s"
  "activeModal (removed m s) = activeModal s"
  "title (heap (removed m s) i) = title (heap s i)"
  "data_active (heap (removed m s) i) = data_active (heap s i)"
  "style_zIndex (heap (removed m s) i) = style_zIndex (heap s i)"
  "modals (removed m s) = AList.delete (title (heap s m)) (modals s)"
  by (simp_all add: removed_def update_window_def)

lemma removed_entries: "p \<in> set (modals (removed m s)) \<Longrightarrow> p \<in> set (modals s)"
  by (simp add: delete_entries)

lemma removed_registered: "registered (removed m s) i \<Longrightarrow> registered s i"
  by (auto simp: registered_def getAllModals_def delete_entries)

lemma well_formed_removed:
  assumes "well_formed s"
  shows "well_formed (removed m s)"
proof -
  have "list_all (\<lambda>(t, i). i < nextId s \<and> title (heap s i) = t) (modals (removed m s))"
    using assms removed_entries [of _ m s] unfolding well_formed_def list_all_iff by blast
  moreover have "distinct (map fst (modals (removed m s)))"
    "distinct (map snd (modals (removed m s)))"
    using assms by (simp_all add: well_formed_def distinct_delete delete_snd_distinct)
  ultimately show "well_formed (removed m s)"
    using assms unfolding well_formed_def by (simp split: option.splits)
qed

lemma zIndex_bounded_removed:
  assumes "zIndex_bounded s"
  shows "zIndex_bounded (removed m s)"
  unfolding zIndex_bounded_def list_all_iff
proof
  fix i assume "i \<in> set (getAllModals (removed m s))"
  then have "i \<in> set (getAllModals s)"
    using removed_registered [of m s i] by (simp add: registered_def)
  then show "zIndex_of (removed m s) i \<le> nextZIndex (removed m s)"
    using assms by (simp add: zIndex_bounded_def list_all_iff zIndex_of_def)
qed

lemma is_active_removed [simp]: "is_active (removed m s) i = is_active s i"
  by (simp add: is_active_def)

lemma single_active_removed:
  assumes "single_active s"
  shows "single_active (removed m s)"
proof -
  have one: "i = j" if "registered s i" "is_active s i" "registered s j" "is_active s j" for i j
    using assms that unfolding single_active_def by blast
  have rec: "is_active s a \<and> (\<forall>i. registered s i \<and> is_active s i \<longrightarrow> i = a)"
    if "activeModal s = Some a" for a
    using assms that unfolding single_active_def by blast
  have act: "activeModal s = Some i" if "registered s i" "is_active s i" for i
    using assms that unfolding single_active_def by blast
  show ?thesis
    unfolding single_active_def
  proof (intro conjI allI impI)
    fix i j
    assume "registered (removed m s) i \<and> is_active (removed m s) i
      \<and> registered (removed m s) j \<and> is_active (removed m s) j"
    then show "i = j" using one [of i j] removed_registered [of m s] by simp
  next
    fix a assume "activeModal (removed m s) = Some a"
    then show "is_active (removed m s) a" using rec [of a] by simp
  next
    fix a i
    assume "activeModal (removed m s) = Some a"
      and "registered (removed m s) i \<and> is_active (removed m s) i"
    then show "i = a" using rec [of a] removed_registered [of m s i] by simp
  next
    fix i assume "registered (removed m s) i \<and> is_active (removed m s) i"
    then show "activeModal (removed m s) = Some i"
      using act [of i] removed_registered [of m s i] by simp
  qed
qed

lemma invariant_removed:
  assumes "invariant s"
  shows "invariant (removed m s)"
  using assms well_formed_removed [of s m] zIndex_bounded_removed [of s m]
  by (simp add: invariant_def)

lemma well_formed_no_active: "well_formed s \<Longrightarrow> well_formed (s\<lparr>activeModal := None\<rparr>)"
  by (simp add: well_formed_def)

lemma zIndex_bounded_no_active: "zIndex_bounded (s\<lparr>activeModal := None\<rparr>) = zIndex_bounded s"
  by (simp add: zIndex_bounded_def zIndex_of_def getAllModals_def)

lemma invariant_closeModal:
  assumes "invariant s"
  shows "invariant (closeModal m s)"
proof -
  let ?r = "removed m s" and ?rn = "(removed m s)\<lparr>activeModal := None\<rparr>"
  have inv_r: "invariant ?r" using assms by (rule invariant_removed)
  then have wf0: "well_formed ?rn" and z0: "zIndex_bounded ?rn"
    by (simp_all add: invariant_def well_formed_no_active zIndex_bounded_no_active)
  have empty: "invariant ?rn" if "getAllModals ?r = []"
    using wf0 z0 that
    by (simp add: invariant_def)
  have nonempty: "invariant (bringModalToFront (last (getAllModals ?r)) ?rn)"
    if "getAllModals ?r \<noteq> []"
  proof -
    have "last (getAllModals ?r) \<in> set (getAllModals ?rn)"
      using that last_in_set [of "getAllModals ?r"] by (simp add: getAllModals_def)
    with wf0 have below: "last (getAllModals ?r) < nextId ?rn"
      by (rule registered_below_nextId)
    have "list_all (\<lambda>i. i = last (getAllModals ?r) \<or> zIndex_of ?rn i \<le> nextZIndex ?rn)
        (getAllModals ?rn)"
      using z0 by (auto simp: zIndex_bounded_def list_all_iff)
    then show ?thesis
      using well_formed_bringModalToFront [OF wf0 below]
        zIndex_bringModalToFront [of "last (getAllModals ?r)" ?rn]
      by (simp add: invariant_def)
  qed
  show ?thesis
    using inv_r empty nonempty by (simp add: closeModal_eq invariant_closeCallback)
qed

subsection \<open>Resetting the z-indexes\<close>

lemma reset_fold_counter: "snd (fold reset_step xs (s, z0)) = z0 + int (length xs)"
  by (induction xs arbitrary: s z0) (simp_all add: reset_step_def)

lemma reset_fold_frame:
  "fst (fold reset_step xs (s, z0)) = s\<lparr>heap := heap (fst (fold reset_step xs (s, z0)))\<rparr>"
proof (induction xs arbitrary: s z0)
  case Nil
  show ?case by simp
next
  case (Cons x xs)
  have "fst (fold reset_step (x # xs) (s, z0)) = fst (fold reset_step xs (setZIndex z0 x s, z0 + 1))"
    by (simp add: reset_step_def)
  moreover have "fst (fold reset_step xs (setZIndex z0 x s, z0 + 1)) =
      (setZIndex z0 x s)\<lparr>heap := heap (fst (fold reset_step xs (setZIndex z0 x s, z0 + 1)))\<rparr>"
    by (rule Cons.IH)
  ultimately show ?case by (simp add: setZIndex_def update_window_def)
qed

lemma reset_fold_window:
  "heap (fst (fold reset_step xs (s, z0))) i =
   (heap s i)\<lparr>style_zIndex := style_zIndex (heap (fst (fold reset_step xs (s, z0))) i)\<rparr>"
proof (induction xs arbitrary: s z0)
  case Nil
  show ?case by simp
next
  case (Cons x xs)
  have "heap (fst (fold reset_step xs (setZIndex z0 x s, z0 + 1))) i =
      (heap (setZIndex z0 x s) i)\<lparr>style_zIndex :=
         style_zIndex (heap (fst (fold reset_step xs (setZIndex z0 x s, z0 + 1))) i)\<rparr>"
    by (rule Cons.IH)
  then show ?case by (simp add: reset_step_def setZIndex_def update_window_def split: if_splits)
qed

lemma reset_fold_untouched:
  "i \<notin> set xs \<Longrightarrow>
   style_zIndex (heap (fst (fold reset_step xs (s, z0))) i) = style_zIndex (heap s i)"
  by (induction xs arbitrary: s z0) (simp_all add: reset_step_def setZIndex_def update_window_def)

lemma reset_fold_range:
  "i \<in> set xs \<Longrightarrow>
   z0 \<le> style_zIndex (heap (fst (fold reset_step xs (s, z0))) i)
   \<and> style_zIndex (heap (fst (fold reset_step xs (s, z0))) i) < z0 + int (length xs)"
proof (induction xs arbitrary: s z0)
  case Nil
  then show ?case by simp
next
  case (Cons x xs)
  let ?s1 = "setZIndex z0 x s"
  have unfold: "fold reset_step (x # xs) (s, z0) = fold reset_step xs (?s1, z0 + 1)"
    by (simp add: reset_step_def)
  show ?case
  proof (cases "i \<in> set xs")
    case True
    have "z0 + 1 \<le> style_zIndex (heap (fst (fold reset_step xs (?s1, z0 + 1))) i)
        \<and> style_zIndex (heap (fst (fold reset_step xs (?s1, z0 + 1))) i)
            < z0 + 1 + int (length xs)"
      using True by (rule Cons.IH)
    then show ?thesis unfolding unfold by simp
  next
    case False
    with Cons.prems have "i = x" by simp
    moreover have "style_zIndex (heap (fst (fold reset_step xs (?s1, z0 + 1))) i)
        = style_zIndex (heap ?s1 i)"
      using False by (rule reset_fold_untouched)
    ultimately show ?thesis unfolding unfold by (simp add: setZIndex_def update_window_def)
  qed
qed

lemma resetModalZIndexes_eq:
  "resetModalZIndexes s =
   s\<lparr>heap := heap (fst (fold reset_step (getAllModals s) (s, 1000))),
     nextZIndex := 1000 + int (length (modals s))\<rparr>"
proof -
  have "resetModalZIndexes s =
      (fst (fold reset_step (getAllModals s) (s, 1000)))
        \<lparr>nextZIndex := snd (fold reset_step (getAllModals s) (s, 1000))\<rparr>"
    by (simp add: resetModalZIndexes_def reset_step_def split_beta)
  also have "\<dots> = (s\<lparr>heap := heap (fst (fold reset_step (getAllModals s) (s, 1000)))\<rparr>)
        \<lparr>nextZIndex := 1000 + int (length (modals s))\<rparr>"
    using reset_fold_frame [of "getAllModals s" s 1000]
    by (simp add: reset_fold_counter getAllModals_def)
  finally show ?thesis by simp
qed

lemma resetModalZIndexes_window:
  "title (heap (resetModalZIndexes s) i) = title (heap s i)"
  "data_active (heap (resetModalZIndexes s) i) = data_active (heap s i)"
  using arg_cong [OF reset_fold_window [of "getAllModals s" s 1000 i], of title]
    arg_cong [OF reset_fold_window [of "getAllModals s" s 1000 i], of data_active]
  by (simp_all add: resetModalZIndexes_eq)

lemma invariant_resetModalZIndexes:
  assumes "invariant s"
  shows "invariant (resetModalZIndexes s)"
proof -
  have "well_formed (resetModalZIndexes s) = well_formed s"
    by (rule well_formed_cong) (simp_all add: resetModalZIndexes_window, simp_all add: resetModalZIndexes_eq)
  moreover have "zIndex_bounded (resetModalZIndexes s)"
    unfolding zIndex_bounded_def list_all_iff zIndex_of_def
  proof
    fix i assume "i \<in> set (getAllModals (resetModalZIndexes s))"
    then have "i \<in> set (getAllModals s)" by (simp add: getAllModals_def resetModalZIndexes_eq)
    from reset_fold_range [OF this, of 1000 s]
    show "style_zIndex (heap (resetModalZIndexes s) i) \<le> nextZIndex (resetModalZIndexes s)"
      by (simp add: resetModalZIndexes_eq getAllModals_def)
  qed
  ultimately show ?thesis using assms by (simp add: invariant_def)
qed

subsection \<open>Restore by title, close active, and the bulk operations\<close>

lemma nextId_restore [simp]: "nextId (restore i s) = nextId s"
  by (simp add: restore_eq)

lemma nextId_minimize [simp]: "nextId (minimize i s) = nextId s"
  by (simp add: minimize_eq)

lemma modals_restore [simp]: "modals (restore i s) = modals s"
  by (simp add: restore_eq)

lemma modals_minimize [simp]: "modals (minimize i s) = modals s"
  by (simp add: minimize_eq)

lemma nextId_closeModal [simp]: "nextId (closeModal m s) = nextId s"
  by (simp add: closeModal_eq closeCallback_def removeModal_def bringModalToFront_eq)

lemma invariant_restoreModalByTitle:
  assumes "invariant s"
  shows "invariant (restoreModalByTitle t s)"
proof (cases "map_of (modals s) t")
  case None
  then show ?thesis using assms by (simp add: restoreModalByTitle_def)
next
  case (Some m)
  then have "m \<in> set (getAllModals s)"
    by (force simp: getAllModals_def dest: map_of_SomeD)
  then have "m < nextId s"
    using assms registered_below_nextId [of s m] by (simp add: invariant_def)
  then have "invariant (bringModalToFront m (restore m s))"
    using assms by (intro invariant_bringModalToFront) (simp_all add: invariant_restore)
  then show ?thesis
    using Some assms by (simp add: restoreModalByTitle_def invariant_restoreFromDockCallback)
qed

lemma invariant_closeActiveModal:
  assumes "invariant s"
  shows "invariant (closeActiveModal s)"
  using assms by (simp add: closeActiveModal_def invariant_closeModal split: option.split)

lemma minimizeAllModals_from_fold:
  "minimizeAllModals_from k s = fold minimize (drop k (getAllModals s)) s"
proof (induction k s rule: minimizeAllModals_from.induct)
  case (1 k s)
  show ?case
  proof (cases "k < length (modals s)")
    case True
    then have "drop k (getAllModals s) = snd (modals s ! k) # drop (Suc k) (getAllModals s)"
      by (simp add: getAllModals_def Cons_nth_drop_Suc [symmetric])
    moreover have "getAllModals (minimize (snd (modals s ! k)) s) = getAllModals s"
      by (simp add: getAllModals_def)
    ultimately show ?thesis
      using True 1 by (subst minimizeAllModals_from.simps) simp
  next
    case False
    then show ?thesis
      by (subst minimizeAllModals_from.simps) (simp add: getAllModals_def)
  qed
qed

lemma restoreAllModals_from_fold:
  "restoreAllModals_from k s = fold restore (drop k (getAllModals s)) s"
proof (induction k s rule: restoreAllModals_from.induct)
  case (1 k s)
  show ?case
  proof (cases "k < length (modals s)")
    case True
    then have "drop k (getAllModals s) = snd (modals s ! k) # drop (Suc k) (getAllModals s)"
      by (simp add: getAllModals_def Cons_nth_drop_Suc [symmetric])
    moreover have "getAllModals (restore (snd (modals s ! k)) s) = getAllModals s"
      by (simp add: getAllModals_def)
    ultimately show ?thesis
      using True 1 by (subst restoreAllModals_from.simps) simp
  next
    case False
    then show ?thesis
      by (subst restoreAllModals_from.simps) (simp add: getAllModals_def)
  qed
qed

lemma fold_invariant:
  assumes "\<And>x st. invariant st \<Longrightarrow> invariant (f x st)"
    and "invariant s"
  shows "invariant (fold f xs s)"
  using assms(2) by (induction xs arbitrary: s) (simp_all add: assms(1))

lemma invariant_minimizeAllModals:
  assumes "invariant s"
  shows "invariant (minimizeAllModals s)"
  unfolding minimizeAllModals_def minimizeAllModals_from_fold
  using assms by (intro fold_invariant) (simp_all add: invariant_minimize)

lemma invariant_restoreAllModals:
  assumes "invariant s"
  shows "invariant (restoreAllModals s)"
  unfolding restoreAllModals_def restoreAllModals_from_fold
  using assms by (intro fold_invariant) (simp_all add: invariant_restore)

lemma invariant_closeAllModals:
  assumes "invariant s"
  shows "invariant (closeAllModals s)"
  unfolding closeAllModals_def Let_def
  using assms by (intro fold_invariant) (simp_all add: invariant_closeModal)

subsection \<open>The app icon\<close>

lemma fold_minimizeModalToDock_settled:
  "fold minimizeModalToDock_settled xs s =
   s\<lparr>heap := (\<lambda>i. if i \<in> set xs then (heap s i)\<lparr>style_display := DisplayNone\<rparr>
                  else heap s i)\<rparr>"
proof (induction xs arbitrary: s)
  case Nil
  show ?case by simp
next
  case (Cons x xs)
  let ?s1 = "minimizeModalToDock_settled x s"
  have "fold minimizeModalToDock_settled (x # xs) s = fold minimizeModalToDock_settled xs ?s1"
    by simp
  also have "\<dots> = ?s1\<lparr>heap := (\<lambda>i. if i \<in> set xs
      then (heap ?s1 i)\<lparr>style_display := DisplayNone\<rparr> else heap ?s1 i)\<rparr>"
    by (rule Cons.IH)
  also have "\<dots> = s\<lparr>heap := (\<lambda>i. if i \<in> set (x # xs)
      then (heap s i)\<lparr>style_display := DisplayNone\<rparr> else heap s i)\<rparr>"
    by (simp add: minimizeModalToDock_settled_def update_window_def fun_eq_iff)
  finally show ?case .
qed

lemma fold_minimizeModalToDock:
  "fold minimizeModalToDock xs s =
   s\<lparr>heap := (\<lambda>i. if i \<in> set xs then (heap s i)\<lparr>data_active := Some False\<rparr>
                  else heap s i)\<rparr>"
proof (induction xs arbitrary: s)
  case Nil
  show ?case by simp
next
  case (Cons x xs)
  let ?s1 = "minimizeModalToDock x s"
  have "fold minimizeModalToDock (x # xs) s = fold minimizeModalToDock xs ?s1"
    by simp
  also have "\<dots> = ?s1\<lparr>heap := (\<lambda>i. if i \<in> set xs
      then (heap ?s1 i)\<lparr>data_active := Some False\<rparr> else heap ?s1 i)\<rparr>"
    by (rule Cons.IH)
  also have "\<dots> = s\<lparr>heap := (\<lambda>i. if i \<in> set (x # xs)
      then (heap s i)\<lparr>data_active := Some False\<rparr> else heap s i)\<rparr>"
    by (simp add: minimizeModalToDock_def update_window_def fun_eq_iff)
  finally show ?case .
qed

text \<open>
  The click on the app icon in closed form: every dialog in the content area is marked
  inactive and hidden, every registered window is marked inactive, no window is recorded as
  active, and the selection callback is told so. Nothing else changes.
\<close>

lemma appIcon_click_eq:
  "appIcon_click s =
   s\<lparr>heap := (\<lambda>i. if i \<in> set (DOM_getAllModals s)
                  then (heap s i)\<lparr>data_active := Some False, style_display := DisplayNone\<rparr>
                  else if i \<in> set (getAllModals s)
                       then (heap s i)\<lparr>data_active := Some False\<rparr>
                       else heap s i),
     activeModal := None,
     delivered := delivered s @ [SelectionChanged []],
     activeModalTitle := []\<rparr>"
  by (simp add: appIcon_click_def Let_def fold_minimizeModalToDock_settled
      fold_minimizeModalToDock clearActiveModal_eq resetToDefaultBranding_def
      titleBar_minimizeAllModals_def getAllModals_def fun_eq_iff)

lemma modals_appIcon_click: "modals (appIcon_click s) = modals s"
  by (simp add: appIcon_click_eq)

lemma invariant_appIcon_click:
  assumes "invariant s"
  shows "invariant (appIcon_click s)"
proof -
  have "well_formed (appIcon_click s)"
    using assms by (auto simp: invariant_def well_formed_def appIcon_click_eq list_all_iff)
  moreover have "zIndex_bounded (appIcon_click s)"
    using assms
    by (auto simp: invariant_def zIndex_bounded_def zIndex_of_def appIcon_click_eq list_all_iff
        getAllModals_def)
  ultimately show ?thesis by (simp add: invariant_def)
qed

subsection \<open>The tab of a hidden window\<close>

lemma restoreModalFromDock_frame:
  "modals (restoreModalFromDock t s) = modals s"
  "activeModal (restoreModalFromDock t s) = activeModal s"
  "nextId (restoreModalFromDock t s) = nextId s"
  "nextZIndex (restoreModalFromDock t s) = nextZIndex s"
  "delivered (restoreModalFromDock t s) = delivered s"
  "minimizedModals (restoreModalFromDock t s) = minimizedModals s"
  "title (heap (restoreModalFromDock t s) i) = title (heap s i)"
  "style_zIndex (heap (restoreModalFromDock t s) i) = style_zIndex (heap s i)"
  "isMinimized (heap (restoreModalFromDock t s) i) = isMinimized (heap s i)"
  "attached (heap (restoreModalFromDock t s) i) = attached (heap s i)"
  by (simp_all add: restoreModalFromDock_def restoreModalFromDock_settled_def
      updateActiveModal_def update_window_def split: option.split)

lemma invariant_restoreModalFromDock: "invariant (restoreModalFromDock t s) = invariant s"
  by (rule invariant_cong) (simp_all add: restoreModalFromDock_frame)

subsection \<open>Every reachable state satisfies the invariant\<close>

lemma invariant_run:
  assumes "invariant s" "allowed c s"
  shows "invariant (run c s)"
  using assms
  by (cases c)
    (simp_all add: invariant_createModalFromDefinition invariant_createModal
      invariant_bringModalToFront invariant_closeModal invariant_clearActiveModal
      invariant_minimize invariant_restore invariant_toggleMaximize invariant_resize
      invariant_restoreModalByTitle invariant_closeActiveModal invariant_minimizeAllModals
      invariant_restoreAllModals invariant_resetModalZIndexes invariant_closeAllModals
      invariant_drag invariant_appIcon_click invariant_restoreModalFromDock)

lemma reachable_invariant: "reachable s \<Longrightarrow> invariant s"
  by (induction rule: reachable.induct) (simp_all add: invariant_initial invariant_run)

lemma reachable_runs: "reachable s \<Longrightarrow> allowed_all cs s \<Longrightarrow> reachable (runs cs s)"
  by (induction cs arbitrary: s) (auto intro: reachable.step)

lemma nextId_bringModalToFront [simp]: "nextId (bringModalToFront m s) = nextId s"
  by (simp add: bringModalToFront_eq)

lemma nextId_createModal [simp]: "nextId (createModal t w h l tp color s) = Suc (nextId s)"
  by (simp add: createModal_def Let_def)

lemma scenario_A_fields:
  "nextId scenario_A = 2" "modals scenario_A = [(''Alpha'', 0), (''Beta'', Suc 0)]"
  "activeModal scenario_A = Some (Suc 0)" "nextZIndex scenario_A = 1002"
  "data_active (heap scenario_A 0) = Some False"
  "data_active (heap scenario_A (Suc 0)) = Some True"
  "style_zIndex (heap scenario_A 0) = 1001" "style_zIndex (heap scenario_A (Suc 0)) = 1002"
  by (simp_all add: scenario_A_def createModal_def Let_def bringModalToFront_eq initial_UI_def
      new_ModalWindow_def getAllModals_def)

lemma reachable_scenario_A: "reachable scenario_A"
  unfolding scenario_A_def
  by (rule reachable_runs [OF reachable.initial]) simp

lemma nextId_createModalFromDefinition [simp]:
  "nextId (createModalFromDefinition iw ih r1 r2 d s) = Suc (nextId s)"
  by (simp add: createModalFromDefinition_def Let_def update_window_def)

subsection \<open>At most one active window\<close>

lemma single_active_initial: "single_active initial_UI"
  by (simp add: single_active_def registered_def initial_UI_def getAllModals_def)

lemma single_active_closeCallback: "single_active (closeCallback t s) = single_active s"
  by (rule single_active_cong) (simp_all add: closeCallback_def removeModal_def getAllModals_def)

lemma single_active_restoreFromDockCallback:
  "single_active (restoreFromDockCallback t s) = single_active s"
  by (rule single_active_cong)
    (simp_all add: restoreFromDockCallback_def removeModal_def getAllModals_def)

lemma single_active_minimize: "single_active (minimize i s) = single_active s"
  by (rule single_active_cong) (simp_all add: minimize_eq getAllModals_def)

lemma single_active_restore: "single_active (restore i s) = single_active s"
  by (rule single_active_cong) (simp_all add: restore_eq getAllModals_def)

lemma single_active_update_window:
  assumes "\<And>m. data_active (f m) = data_active m"
  shows "single_active (update_window i f s) = single_active s"
  by (rule single_active_cong) (simp_all add: update_window_def getAllModals_def assms)

lemma single_active_closeModal:
  assumes "single_active s"
  shows "single_active (closeModal m s)"
proof -
  have "single_active ((removed m s)\<lparr>activeModal := None\<rparr>)"
    if "getAllModals (removed m s) = []"
    using that by (simp add: single_active_def registered_def getAllModals_def)
  then show ?thesis
    using single_active_removed [OF assms, of m]
    by (simp add: closeModal_eq single_active_closeCallback single_active_bringModalToFront)
qed

lemma fold_single_active:
  assumes "\<And>x st. single_active st \<Longrightarrow> single_active (f x st)"
    and "single_active s"
  shows "single_active (fold f xs s)"
  using assms(2) by (induction xs arbitrary: s) (simp_all add: assms(1))

text \<open>
  Every command that goes through the registry or a window object keeps the single active
  window: the ones that focus a window or clear the selection establish it, the others do not
  touch what it speaks about.
\<close>

lemma single_active_run:
  assumes "single_active s" "via_registry c"
  shows "single_active (run c s)"
proof (cases c)
  case (Launch iw ih r1 r2 d)
  then show ?thesis
    by (simp add: createModalFromDefinition_def createModal_def Let_def
        single_active_update_window single_active_bringModalToFront)
next
  case (CreateModal t w h l tp color)
  then show ?thesis by (simp add: createModal_def Let_def single_active_bringModalToFront)
next
  case (Focus i)
  then show ?thesis by (simp add: single_active_bringModalToFront)
next
  case (Close i)
  then show ?thesis using assms(1) by (simp add: single_active_closeModal)
next
  case ClearActive
  then show ?thesis by (simp add: single_active_clearActiveModal)
next
  case (Minimize i)
  then show ?thesis using assms(1) by (simp add: single_active_minimize)
next
  case (Restore i)
  then show ?thesis using assms(1) by (simp add: single_active_restore)
next
  case (ToggleMaximize h i)
  then show ?thesis
    using assms(1) by (simp add: single_active_update_window toggleMaximize_frame)
next
  case (Resize h d dx dy i)
  then show ?thesis using assms(1) by (simp add: single_active_update_window resize_frame)
next
  case (Drag h dx dy i)
  then show ?thesis using assms(1) by (simp add: single_active_update_window drag_frame)
next
  case (RestoreByTitle t)
  then show ?thesis
    using assms(1)
    by (simp add: restoreModalByTitle_def single_active_restoreFromDockCallback
        single_active_bringModalToFront split: option.split)
next
  case CloseActive
  then show ?thesis
    using assms(1) by (simp add: closeActiveModal_def single_active_closeModal split: option.split)
next
  case MinimizeAll
  have "single_active (fold minimize (drop 0 (getAllModals s)) s)"
    using assms(1) by (intro fold_single_active) (simp_all add: single_active_minimize)
  with MinimizeAll show ?thesis
    by (simp add: minimizeAllModals_def minimizeAllModals_from_fold)
next
  case RestoreAll
  have "single_active (fold restore (drop 0 (getAllModals s)) s)"
    using assms(1) by (intro fold_single_active) (simp_all add: single_active_restore)
  with RestoreAll show ?thesis
    by (simp add: restoreAllModals_def restoreAllModals_from_fold)
next
  case BringAllToFront
  have "single_active (resetModalZIndexes s) = single_active s"
    by (rule single_active_cong)
      (simp_all add: resetModalZIndexes_window, simp_all add: resetModalZIndexes_eq getAllModals_def)
  with BringAllToFront show ?thesis using assms(1) by simp
next
  case CloseAll
  have "single_active (fold closeModal (getAllModals s) s)"
    using assms(1) by (intro fold_single_active) (simp_all add: single_active_closeModal)
  with CloseAll show ?thesis by (simp add: closeAllModals_def)
next
  case AppIconClick
  then show ?thesis
    by (simp add: single_active_def registered_def is_active_def appIcon_click_eq
        getAllModals_def)
next
  case (TabRestore t)
  then show ?thesis using assms(2) by simp
qed

lemma scenario_tab_fields:
  "nextId scenario_tab = Suc (Suc 0)"
  "modals scenario_tab = [(''Terminal'', 0), (''Settings'', Suc 0)]"
  "activeModal scenario_tab = Some (Suc 0)"
  "title (heap scenario_tab 0) = ''Terminal''" "title (heap scenario_tab (Suc 0)) = ''Settings''"
  "attached (heap scenario_tab 0)" "attached (heap scenario_tab (Suc 0))"
  "isMinimized (heap scenario_tab 0)"
  "style_display (heap scenario_tab 0) = DisplayNone"
  "style_display (heap scenario_tab (Suc 0)) = DisplayFlex"
  "data_active (heap scenario_tab 0) = Some False"
  "data_active (heap scenario_tab (Suc 0)) = Some True"
  by (simp_all add: scenario_tab_def createModalFromDefinition_def createModal_def Let_def
      bringModalToFront_eq minimize_eq initial_UI_def new_ModalWindow_def getAllModals_def
      terminal_def settings_def update_window_def)

lemma reachable_scenario_tab: "reachable scenario_tab"
  unfolding scenario_tab_def
  by (rule reachable_runs [OF reachable.initial]) simp

lemma single_active_scenario_tab: "single_active scenario_tab"
  by (auto simp: single_active_def registered_def is_active_def getAllModals_def
      scenario_tab_fields)

lemma DOM_getModalByTitle_scenario_tab: "DOM_getModalByTitle ''Terminal'' scenario_tab = Some 0"
  by (simp add: DOM_getModalByTitle_def DOM_getAllModals_def scenario_tab_fields)

text \<open>
  C1: at most one window should be active in every reachable state. Two windows are launched
  from the catalog; the first, Terminal, is clicked and minimized; the second, Settings, is
  clicked, which makes it the active window and redraws the tabs, Terminal's as the tab of a
  hidden window. In this state Settings is the one active window. A click on Terminal's tab
  then shows Terminal and marks it active without the registry: both registered windows are
  active, and the registry still records Settings. Terminal's dock entry, on the same state,
  goes through \<^verbatim>\<open>restoreModalByTitle\<close> and leaves Terminal as the only active window.
\<close>

theorem tab_restore_two_active:
  "reachable (run (TabRestore ''Terminal'') scenario_tab)
   \<and> getAllModals scenario_tab = [0, 1]
   \<and> style_display (heap scenario_tab 0) = DisplayNone
   \<and> \<not> is_active scenario_tab 0 \<and> is_active scenario_tab 1
   \<and> activeModal scenario_tab = Some 1
   \<and> registered (run (TabRestore ''Terminal'') scenario_tab) 0
   \<and> registered (run (TabRestore ''Terminal'') scenario_tab) 1
   \<and> is_active (run (TabRestore ''Terminal'') scenario_tab) 0
   \<and> is_active (run (TabRestore ''Terminal'') scenario_tab) 1
   \<and> activeModal (run (TabRestore ''Terminal'') scenario_tab) = Some 1
   \<and> is_active (run (RestoreByTitle ''Terminal'') scenario_tab) 0
   \<and> \<not> is_active (run (RestoreByTitle ''Terminal'') scenario_tab) 1
   \<and> activeModal (run (RestoreByTitle ''Terminal'') scenario_tab) = Some 0"
proof -
  have "reachable (run (TabRestore ''Terminal'') scenario_tab)"
    by (rule reachable.step [OF reachable_scenario_tab]) simp
  moreover have "getAllModals scenario_tab = [0, 1]"
    "\<not> is_active scenario_tab 0" "is_active scenario_tab 1" "activeModal scenario_tab = Some 1"
    by (simp_all add: getAllModals_def is_active_def scenario_tab_fields)
  moreover have "registered (run (TabRestore ''Terminal'') scenario_tab) 0"
    "registered (run (TabRestore ''Terminal'') scenario_tab) 1"
    "is_active (run (TabRestore ''Terminal'') scenario_tab) 0"
    "is_active (run (TabRestore ''Terminal'') scenario_tab) 1"
    "activeModal (run (TabRestore ''Terminal'') scenario_tab) = Some 1"
    by (simp_all add: registered_def getAllModals_def is_active_def restoreModalFromDock_def
        restoreModalFromDock_settled_def updateActiveModal_def update_window_def
        DOM_getModalByTitle_scenario_tab scenario_tab_fields)
  moreover have "is_active (run (RestoreByTitle ''Terminal'') scenario_tab) 0"
    "\<not> is_active (run (RestoreByTitle ''Terminal'') scenario_tab) 1"
    "activeModal (run (RestoreByTitle ''Terminal'') scenario_tab) = Some 0"
    by (simp_all add: is_active_def restoreModalByTitle_def restoreFromDockCallback_def
        removeModal_def bringModalToFront_eq restore_eq getAllModals_def scenario_tab_fields)
  ultimately show ?thesis by (simp add: scenario_tab_fields)
qed

text \<open>In the words of the invariant: the state after the click on the tab violates it.\<close>

lemma tab_restore_not_single_active:
  "\<not> single_active (run (TabRestore ''Terminal'') scenario_tab)"
proof
  assume "single_active (run (TabRestore ''Terminal'') scenario_tab)"
  moreover have "registered (run (TabRestore ''Terminal'') scenario_tab) 0"
    "is_active (run (TabRestore ''Terminal'') scenario_tab) 0"
    "activeModal (run (TabRestore ''Terminal'') scenario_tab) = Some (Suc 0)"
    by (simp_all add: registered_def getAllModals_def is_active_def restoreModalFromDock_def
        restoreModalFromDock_settled_def updateActiveModal_def update_window_def
        DOM_getModalByTitle_scenario_tab scenario_tab_fields)
  ultimately show False unfolding single_active_def by force
qed

text \<open>
  Launching one catalog entry twice: \<^verbatim>\<open>createModal\<close> stores the second window under the
  title of the first, whose dialog stays in the content area and is no longer among the
  windows \<^verbatim>\<open>bringModalToFront\<close> marks inactive. Both dialogs are then active, one of them
  unknown to the registry.
\<close>

lemma duplicate_launch_two_active:
  "getAllModals scenario_twice = [1] \<and> activeModal scenario_twice = Some 1
   \<and> DOM_getAllModals scenario_twice = [0, 1]
   \<and> is_active scenario_twice 0 \<and> is_active scenario_twice 1"
  by (simp add: scenario_twice_def scenario_terminal_def createModalFromDefinition_def
      createModal_def Let_def bringModalToFront_eq initial_UI_def new_ModalWindow_def
      getAllModals_def DOM_getAllModals_def is_active_def terminal_def update_window_def)

subsection \<open>Focus puts a window in front\<close>

lemma getAllModals_bringModalToFront [simp]:
  "getAllModals (bringModalToFront m s) = getAllModals s"
  by (simp add: bringModalToFront_eq getAllModals_def)

lemma in_front_bringModalToFront:
  assumes "zIndex_bounded s" "registered s w"
  shows "in_front (bringModalToFront w s) w"
proof -
  let ?s = "bringModalToFront w s"
  have "list_all (\<lambda>i. i = w \<or> zIndex_of s i \<le> nextZIndex s) (getAllModals s)"
    using assms(1) by (auto simp: zIndex_bounded_def list_all_iff)
  from zIndex_bringModalToFront [OF this]
  have below: "list_all (\<lambda>i. i = w \<or> zIndex_of ?s i < zIndex_of ?s w) (getAllModals ?s)"
    by simp
  have mem: "w \<in> set (getAllModals ?s)" using assms(2) by (simp add: registered_def)
  have "Max (zIndex_of ?s ` set (getAllModals ?s)) = zIndex_of ?s w"
  proof (rule Max_eqI)
    show "finite (zIndex_of ?s ` set (getAllModals ?s))" by simp
    show "zIndex_of ?s w \<in> zIndex_of ?s ` set (getAllModals ?s)" using mem by simp
    fix y assume "y \<in> zIndex_of ?s ` set (getAllModals ?s)"
    then obtain i where "i \<in> set (getAllModals ?s)" "y = zIndex_of ?s i" by auto
    with below show "y \<le> zIndex_of ?s w" by (auto simp: list_all_iff)
  qed
  then show ?thesis using below by (simp add: in_front_def)
qed

text \<open>
  C3: for every reachable state (the states after \<^verbatim>\<open>resetModalZIndexes\<close> included) and
  every registered window \<open>w\<close>, right after \<open>bringModalToFront w\<close> the z-index of \<open>w\<close> is the
  maximum over the registered windows and strictly greater than that of every other
  registered window.
\<close>

theorem focus_in_front:
  assumes "reachable s" "registered s w"
  shows "in_front (bringModalToFront w s) w
         \<and> zIndex_of (bringModalToFront w s) w = nextZIndex (bringModalToFront w s)
         \<and> nextZIndex s < nextZIndex (bringModalToFront w s)"
proof -
  have "zIndex_bounded s" using reachable_invariant [OF assms(1)] by (simp add: invariant_def)
  then have "in_front (bringModalToFront w s) w"
    using assms(2) by (rule in_front_bringModalToFront)
  moreover have "zIndex_of (bringModalToFront w s) w = nextZIndex (bringModalToFront w s)"
    "nextZIndex s < nextZIndex (bringModalToFront w s)"
    by (simp_all add: zIndex_of_def bringModalToFront_eq)
  ultimately show ?thesis by simp
qed

lemma reachable_scenario_reset: "reachable scenario_reset"
  unfolding scenario_reset_def
  by (rule reachable.step [OF reachable_scenario_A]) simp

lemma scenario_reset_fields:
  "modals scenario_reset = [(''Alpha'', 0), (''Beta'', Suc 0)]"
  "nextZIndex scenario_reset = 1002"
  "style_zIndex (heap scenario_reset 0) = 1000"
  "style_zIndex (heap scenario_reset (Suc 0)) = 1001"
  by (simp_all add: scenario_reset_def resetModalZIndexes_def getAllModals_def
      scenario_A_fields setZIndex_def update_window_def)

theorem focus_in_front_witness:
  "reachable scenario_reset \<and> registered scenario_reset 0
   \<and> in_front (bringModalToFront 0 scenario_reset) 0
   \<and> zIndex_of (bringModalToFront 0 scenario_reset) 0 = 1003
   \<and> zIndex_of (bringModalToFront 0 scenario_reset) 1 = 1001"
  using focus_in_front [OF reachable_scenario_reset, of 0]
  by (simp add: reachable_scenario_reset registered_def getAllModals_def scenario_reset_fields
      zIndex_of_def bringModalToFront_eq)

subsection \<open>Bulk operations iterate as over a snapshot\<close>

text \<open>
  C8: each bulk operation equals applying the single-window operation to every element of
  the list of windows taken before the iteration starts. \<^verbatim>\<open>minimizeAllModals\<close> and
  \<^verbatim>\<open>restoreAllModals\<close> walk the live map, but \<open>minimize\<close> and \<open>restore\<close> never change the
  map, so the result is that of the snapshot; \<^verbatim>\<open>closeAllModals\<close> takes the snapshot itself.
\<close>

theorem bulk_operations_as_snapshot:
  "minimizeAllModals s = fold minimize (getAllModals s) s
   \<and> restoreAllModals s = fold restore (getAllModals s) s
   \<and> closeAllModals s = fold closeModal (getAllModals s) s"
  by (simp add: minimizeAllModals_def restoreAllModals_def closeAllModals_def
      minimizeAllModals_from_fold restoreAllModals_from_fold)

subsection \<open>Restore by title notifies twice\<close>

lemma delivered_bringModalToFront:
  "delivered (bringModalToFront m s) = delivered s @ [SelectionChanged (title (heap s m))]"
  by (simp add: bringModalToFront_eq)

text \<open>
  C10: when \<open>restoreModalByTitle t\<close> is called in a reachable state where \<open>t\<close> names a
  registered, minimized window, the restore-from-dock callback is called with \<open>t\<close> exactly
  twice: once through the window's own restore notification, then, after the selection
  change of the focus, once directly.
\<close>

theorem restoreModalByTitle_notifies_twice:
  assumes "reachable s" "map_of (modals s) t = Some m" "isMinimized (heap s m)"
  shows "delivered (restoreModalByTitle t s)
           = delivered s @ [Restored t, SelectionChanged t, Restored t]
         \<and> count_list (delivered (restoreModalByTitle t s)) (Restored t)
           = count_list (delivered s) (Restored t) + 2"
proof -
  have "(t, m) \<in> set (modals s)" using assms(2) by (rule map_of_SomeD)
  moreover have "well_formed s" using reachable_invariant [OF assms(1)] by (simp add: invariant_def)
  ultimately have ttl: "title (heap s m) = t"
    by (auto simp: well_formed_def list_all_iff)
  have "delivered (restoreModalByTitle t s)
        = delivered s @ [Restored t, SelectionChanged t, Restored t]"
    using assms(2,3) ttl
    by (simp add: restoreModalByTitle_def restoreFromDockCallback_def removeModal_def
        delivered_bringModalToFront restore_eq)
  then show ?thesis by simp
qed

lemma reachable_scenario_B: "reachable scenario_B"
proof -
  have "reachable (runs [CreateModal ''Alpha'' 600 400 100 100 ''#007acc'', Minimize 0] initial_UI)"
    by (rule reachable_runs [OF reachable.initial]) simp
  then show ?thesis by (simp add: scenario_B_def)
qed

lemma scenario_B_fields:
  "modals scenario_B = [(''Alpha'', 0)]" "isMinimized (heap scenario_B 0)"
  "delivered scenario_B = [SelectionChanged ''Alpha'', Minimized ''Alpha'']"
  "map fst (minimizedModals scenario_B) = [''Alpha'']"
  by (simp_all add: scenario_B_def createModal_def Let_def bringModalToFront_eq initial_UI_def
      new_ModalWindow_def getAllModals_def minimize_eq)

theorem restoreModalByTitle_notifies_twice_witness:
  "reachable scenario_B \<and> map_of (modals scenario_B) ''Alpha'' = Some 0
   \<and> isMinimized (heap scenario_B 0)
   \<and> delivered (restoreModalByTitle ''Alpha'' scenario_B)
       = [SelectionChanged ''Alpha'', Minimized ''Alpha'', Restored ''Alpha'',
          SelectionChanged ''Alpha'', Restored ''Alpha'']"
  using restoreModalByTitle_notifies_twice [OF reachable_scenario_B, of "''Alpha''" 0]
  by (simp add: reachable_scenario_B scenario_B_fields)

subsection \<open>Closing the active window\<close>

lemma in_front_closeCallback [simp]: "in_front (closeCallback t s) w = in_front s w"
  by (simp add: in_front_def zIndex_of_def getAllModals_def closeCallback_def removeModal_def)

lemma modals_closeModal:
  "modals (closeModal m s) = AList.delete (title (heap s m)) (modals s)"
  by (simp add: closeModal_eq closeCallback_def removeModal_def bringModalToFront_eq)

lemma sorted_below_last:
  fixes xs :: "nat list"
  shows "sorted xs \<Longrightarrow> y \<in> set xs \<Longrightarrow> y \<le> last xs"
  by (induction xs) auto

lemma sorted_last_Max:
  fixes xs :: "nat list"
  assumes "sorted xs" "xs \<noteq> []"
  shows "last xs = Max (set xs)"
proof (rule Max_eqI [symmetric])
  show "finite (set xs)" by simp
  show "last xs \<in> set xs" using assms(2) by simp
  fix y assume "y \<in> set xs"
  with assms(1) show "y \<le> last xs" by (rule sorted_below_last)
qed

lemma another_window:
  assumes "distinct xs" "2 \<le> length xs"
  shows "filter (\<lambda>i. i \<noteq> w) xs \<noteq> []"
proof
  assume "filter (\<lambda>i. i \<noteq> w) xs = []"
  then have "set xs \<subseteq> {w}" by (auto simp: filter_empty_conv)
  then have "card (set xs) \<le> card {w}" by (intro card_mono) simp_all
  then show False using assms by (simp add: distinct_card)
qed

subsection \<open>When the registry lists its windows in creation order\<close>

lemma sorted_delete:
  "sorted (map snd al) \<Longrightarrow> sorted (map snd (AList.delete k al))"
  by (simp add: AList.delete_eq sorted_filter)

lemma sorted_closeModal:
  "sorted (getAllModals s) \<Longrightarrow> sorted (getAllModals (closeModal m s))"
  by (simp add: getAllModals_def modals_closeModal sorted_delete)

lemma sorted_fold_closeModal:
  "sorted (getAllModals s) \<Longrightarrow> sorted (getAllModals (fold closeModal xs s))"
  by (induction xs arbitrary: s) (simp_all add: sorted_closeModal)

lemma getAllModals_fold_same:
  assumes "\<And>x st. getAllModals (f x st) = getAllModals st"
  shows "getAllModals (fold f xs s) = getAllModals s"
  by (induction xs arbitrary: s) (simp_all add: assms)

lemma sorted_createModal:
  assumes "well_formed s" "sorted (getAllModals s)" "t \<notin> fst ` set (modals s)"
  shows "sorted (getAllModals (createModal t w h l tp color s))"
proof -
  have "getAllModals (createModal t w h l tp color s) = getAllModals s @ [nextId s]"
    using assms(3)
    by (simp add: createModal_def Let_def getAllModals_def update_fresh bringModalToFront_eq)
  moreover have "\<forall>i\<in>set (getAllModals s). i \<le> nextId s"
    using assms(1) registered_below_nextId [of s] by (auto simp: less_imp_le)
  ultimately show ?thesis using assms(2) by (simp add: sorted_append)
qed

lemma creation_order_kept:
  assumes "well_formed s" "sorted (getAllModals s)" "fresh_title c s"
  shows "sorted (getAllModals (run c s))"
proof (cases c)
  case (Launch iw ih r1 r2 d)
  then show ?thesis
    using sorted_createModal [OF assms(1,2), of "md_title d"] assms(3)
    by (simp add: createModalFromDefinition_def Let_def getAllModals_def update_window_def)
next
  case (CreateModal t w h l tp color)
  then show ?thesis using sorted_createModal [OF assms(1,2), of t] assms(3) by simp
next
  case (RestoreByTitle t)
  then show ?thesis
    using assms(2)
    by (simp add: restoreModalByTitle_def getAllModals_def restoreFromDockCallback_def
        removeModal_def bringModalToFront_eq split: option.split)
next
  case CloseActive
  then show ?thesis
    using assms(2) by (simp add: closeActiveModal_def sorted_closeModal split: option.split)
next
  case MinimizeAll
  then show ?thesis
    using assms(2) getAllModals_fold_same [of minimize]
    by (simp add: minimizeAllModals_def minimizeAllModals_from_fold getAllModals_def)
next
  case RestoreAll
  then show ?thesis
    using assms(2) getAllModals_fold_same [of restore]
    by (simp add: restoreAllModals_def restoreAllModals_from_fold getAllModals_def)
next
  case CloseAll
  then show ?thesis using assms(2) by (simp add: closeAllModals_def sorted_fold_closeModal)
qed (use assms(2) sorted_closeModal [of s] in \<open>simp_all add: getAllModals_def
      clearActiveModal_eq update_window_def resetModalZIndexes_eq bringModalToFront_eq
      modals_appIcon_click restoreModalFromDock_frame\<close>)

subsection \<open>Closing the active window activates the last remaining one\<close>

text \<open>
  C5, as amended: in a reachable state with at least two registered windows, closing the
  active registered window removes it from the registry and makes the last remaining window
  in the registry's iteration order the active one, by \<open>bringModalToFront\<close>. That window is
  the most recently created remaining one (the one with the greatest construction number)
  whenever the registry lists its windows in creation order, which \<open>creation_order_kept\<close>
  shows to be kept as long as no title is created while it is registered.
\<close>

theorem close_active_activates_last:
  assumes "reachable s" "activeModal s = Some w" "registered s w" "2 \<le> length (modals s)"
  shows "getAllModals (closeModal w s) = filter (\<lambda>i. i \<noteq> w) (getAllModals s)
         \<and> getAllModals (closeModal w s) \<noteq> []
         \<and> \<not> registered (closeModal w s) w
         \<and> closeModal w s =
             closeCallback (title (heap s w))
               (bringModalToFront (last (getAllModals (closeModal w s)))
                  ((removed w s)\<lparr>activeModal := None\<rparr>))
         \<and> activeModal (closeModal w s) = Some (last (getAllModals (closeModal w s)))
         \<and> is_active (closeModal w s) (last (getAllModals (closeModal w s)))
         \<and> in_front (closeModal w s) (last (getAllModals (closeModal w s)))
         \<and> (sorted (getAllModals s) \<longrightarrow>
               last (getAllModals (closeModal w s)) = Max (set (getAllModals (closeModal w s))))"
proof -
  let ?rest = "filter (\<lambda>i. i \<noteq> w) (getAllModals s)"
  let ?rn = "(removed w s)\<lparr>activeModal := None\<rparr>"
  have inv: "invariant s" using assms(1) by (rule reachable_invariant)
  then have wf: "well_formed s" by (simp add: invariant_def)
  from assms(3) obtain k where "(k, w) \<in> set (modals s)"
    by (auto simp: registered_def getAllModals_def)
  moreover from this wf have "title (heap s w) = k"
    by (auto simp: well_formed_def list_all_iff)
  ultimately have own: "(title (heap s w), w) \<in> set (modals s)" by simp
  have rest: "getAllModals (removed w s) = ?rest"
    using wf own by (simp add: getAllModals_def well_formed_def delete_own_title)
  have ne: "?rest \<noteq> []"
    using wf assms(4) by (intro another_window) (simp_all add: well_formed_def getAllModals_def)
  have close: "closeModal w s =
      closeCallback (title (heap s w)) (bringModalToFront (last ?rest) ?rn)"
    using assms(2) ne by (simp add: closeModal_eq rest)
  have all: "getAllModals (closeModal w s) = ?rest"
    using rest by (simp add: getAllModals_def modals_closeModal)
  have "zIndex_bounded ?rn"
    using inv invariant_removed [of s w]
    by (simp add: invariant_def zIndex_bounded_no_active)
  moreover have "registered ?rn (last ?rest)"
    using ne rest last_in_set [of ?rest] by (simp add: registered_def getAllModals_def)
  ultimately have front: "in_front (bringModalToFront (last ?rest) ?rn) (last ?rest)"
    by (rule in_front_bringModalToFront)
  have active: "activeModal (closeModal w s) = Some (last ?rest)"
    and is_act: "is_active (closeModal w s) (last ?rest)"
    by (simp_all add: close closeCallback_def removeModal_def bringModalToFront_eq is_active_def)
  have in_fr: "in_front (closeModal w s) (last ?rest)"
    using front by (simp add: close)
  have unreg: "\<not> registered (closeModal w s) w" by (simp add: registered_def all)
  have recent: "last ?rest = Max (set ?rest)" if "sorted (getAllModals s)"
    using that ne by (intro sorted_last_Max sorted_wrt_filter) simp_all
  show ?thesis
    unfolding all
    using ne close active is_act in_fr unreg recent by blast
qed

lemma reachable_scenario_D: "reachable scenario_D"
  unfolding scenario_D_def
  by (rule reachable.step [OF reachable_scenario_A]) (simp add: scenario_A_fields)

lemma scenario_D_fields:
  "modals scenario_D = [(''Alpha'', 0), (''Beta'', Suc 0)]" "activeModal scenario_D = Some 0"
  "title (heap scenario_D 0) = ''Alpha''"
  by (simp_all add: scenario_D_def bringModalToFront_eq scenario_A_fields scenario_A_def
      createModal_def Let_def new_ModalWindow_def initial_UI_def)

theorem close_active_activates_last_witness:
  "reachable scenario_D \<and> activeModal scenario_D = Some 0 \<and> registered scenario_D 0
   \<and> 2 \<le> length (modals scenario_D) \<and> sorted (getAllModals scenario_D)
   \<and> getAllModals (closeModal 0 scenario_D) = [1]
   \<and> activeModal (closeModal 0 scenario_D) = Some 1
   \<and> is_active (closeModal 0 scenario_D) 1
   \<and> in_front (closeModal 0 scenario_D) 1
   \<and> Max (set (getAllModals (closeModal 0 scenario_D))) = 1"
proof -
  have pre: "activeModal scenario_D = Some 0" "registered scenario_D 0"
    "2 \<le> length (modals scenario_D)"
    by (simp_all add: scenario_D_fields registered_def getAllModals_def)
  note closed = close_active_activates_last [OF reachable_scenario_D pre]
  have rest: "getAllModals (closeModal 0 scenario_D) = [1]"
    using closed by (simp add: getAllModals_def scenario_D_fields)
  from closed
  have "activeModal (closeModal 0 scenario_D)
          = Some (last (getAllModals (closeModal 0 scenario_D)))"
    and "is_active (closeModal 0 scenario_D) (last (getAllModals (closeModal 0 scenario_D)))"
    and "in_front (closeModal 0 scenario_D) (last (getAllModals (closeModal 0 scenario_D)))"
    by blast+
  then have "activeModal (closeModal 0 scenario_D) = Some 1"
    and "is_active (closeModal 0 scenario_D) 1" and "in_front (closeModal 0 scenario_D) 1"
    unfolding rest by simp_all
  moreover have "Max (set (getAllModals (closeModal 0 scenario_D))) = 1"
    unfolding rest by simp
  ultimately show ?thesis
    using rest pre reachable_scenario_D by (simp add: scenario_D_fields getAllModals_def)
qed

lemma reachable_scenario_duplicate: "reachable scenario_duplicate"
  unfolding scenario_duplicate_def
  by (rule reachable_runs [OF reachable.initial]) simp

lemma scenario_duplicate_fields:
  "modals scenario_duplicate = [(''Terminal'', 3), (''Settings'', Suc 0), (''Calculator'', 2)]"
  "activeModal scenario_duplicate = Some 2"
  "title (heap scenario_duplicate 2) = ''Calculator''"
  by (simp_all add: scenario_duplicate_def createModal_def Let_def bringModalToFront_eq
      initial_UI_def new_ModalWindow_def getAllModals_def)

text \<open>
  C5 as stated fails: create Terminal, Settings, Calculator, then Terminal again (the second
  Terminal takes the first one's place in the map), focus Calculator and close it. The
  remaining windows are 3 (the second Terminal, created last) and 1 (Settings); the code
  activates window 1, the last in map order, not the most recently created window 3.
\<close>

theorem close_active_not_most_recent:
  "reachable scenario_duplicate \<and> 2 \<le> length (modals scenario_duplicate)
   \<and> activeModal scenario_duplicate = Some 2 \<and> registered scenario_duplicate 2
   \<and> getAllModals (closeModal 2 scenario_duplicate) = [3, 1]
   \<and> activeModal (closeModal 2 scenario_duplicate) = Some 1
   \<and> Max (set (getAllModals (closeModal 2 scenario_duplicate))) = 3"
proof -
  have "getAllModals (closeModal 2 scenario_duplicate) = [3, 1]"
    by (simp add: getAllModals_def modals_closeModal scenario_duplicate_fields)
  moreover have "activeModal (closeModal 2 scenario_duplicate) = Some 1"
    by (simp add: closeModal_eq removed_def update_window_def getAllModals_def
        scenario_duplicate_fields closeCallback_def removeModal_def bringModalToFront_eq)
  ultimately show ?thesis
    by (simp add: reachable_scenario_duplicate scenario_duplicate_fields registered_def
        getAllModals_def)
qed

subsection \<open>The dock and the two minimize-all paths\<close>

lemma appIcon_click_dock_unchanged:
  "minimizedModals (appIcon_click s) = minimizedModals s
   \<and> delivered (appIcon_click s) = delivered s @ [SelectionChanged []]
   \<and> isMinimized (heap (appIcon_click s) i) = isMinimized (heap s i)"
  by (simp add: appIcon_click_eq)

lemma getModalIcon_Terminal: "getModalIcon ''Terminal'' = ''U+1F4BB''"
  by code_simp

lemma scenario_terminal_fields:
  "nextId scenario_terminal = Suc 0" "modals scenario_terminal = [(''Terminal'', 0)]"
  "attached (heap scenario_terminal 0)" "\<not> isMinimized (heap scenario_terminal 0)"
  "style_display (heap scenario_terminal 0) = DisplayFlex"
  "title (heap scenario_terminal 0) = ''Terminal''"
  "minimizedModals scenario_terminal = []"
  "delivered scenario_terminal = [SelectionChanged ''Terminal'']"
  "activeModal scenario_terminal = Some 0"
  by (simp_all add: scenario_terminal_def createModalFromDefinition_def createModal_def Let_def
      bringModalToFront_eq initial_UI_def new_ModalWindow_def getAllModals_def terminal_def
      update_window_def)

text \<open>
  C2: every path that minimizes should add the dock entry. With one window launched from
  the catalog, the title bar's app icon hides the window (\<^verbatim>\<open>display: none\<close>, inactive) but
  the dock stays empty, \<open>isMinimized\<close> stays false and no minimized notification is
  delivered; the menu's minimize-all on the same state hides the window and adds its entry.
\<close>

theorem appIcon_click_leaves_dock_empty:
  "registered scenario_terminal 0 \<and> rendered (heap scenario_terminal 0)
   \<and> minimizedModals scenario_terminal = []
   \<and> style_display (heap (appIcon_click scenario_terminal) 0) = DisplayNone
   \<and> data_active (heap (appIcon_click scenario_terminal) 0) = Some False
   \<and> isMinimized (heap (appIcon_click scenario_terminal) 0) = False
   \<and> minimizedModals (appIcon_click scenario_terminal) = []
   \<and> delivered (appIcon_click scenario_terminal)
       = [SelectionChanged ''Terminal'', SelectionChanged []]
   \<and> style_display (heap (minimizeAllModals scenario_terminal) 0) = DisplayNone
   \<and> isMinimized (heap (minimizeAllModals scenario_terminal) 0) = True
   \<and> minimizedModals (minimizeAllModals scenario_terminal) = [(''Terminal'', ''U+1F4BB'')]
   \<and> delivered (minimizeAllModals scenario_terminal)
       = [SelectionChanged ''Terminal'', Minimized ''Terminal'']"
proof -
  have dom: "DOM_getAllModals scenario_terminal = [0]"
    by (simp add: DOM_getAllModals_def scenario_terminal_fields)
  have "appIcon_click scenario_terminal =
      minimizeModalToDock_settled 0 (clearActiveModal (resetToDefaultBranding
        ((minimizeModalToDock 0 scenario_terminal)\<lparr>activeModalTitle := []\<rparr>)))"
    by (simp add: appIcon_click_def Let_def dom titleBar_minimizeAllModals_def)
  then have icon:
    "style_display (heap (appIcon_click scenario_terminal) 0) = DisplayNone"
    "data_active (heap (appIcon_click scenario_terminal) 0) = Some False"
    "isMinimized (heap (appIcon_click scenario_terminal) 0) = False"
    "minimizedModals (appIcon_click scenario_terminal) = []"
    "delivered (appIcon_click scenario_terminal) = [SelectionChanged ''Terminal'', SelectionChanged []]"
    by (simp_all add: minimizeModalToDock_settled_def minimizeModalToDock_def update_window_def
        clearActiveModal_eq resetToDefaultBranding_def getAllModals_def scenario_terminal_fields)
  have "minimizeAllModals scenario_terminal = minimize 0 scenario_terminal"
    by (simp add: minimizeAllModals_def minimizeAllModals_from_fold getAllModals_def
        scenario_terminal_fields)
  then have menu:
    "style_display (heap (minimizeAllModals scenario_terminal) 0) = DisplayNone"
    "isMinimized (heap (minimizeAllModals scenario_terminal) 0) = True"
    "minimizedModals (minimizeAllModals scenario_terminal) = [(''Terminal'', ''U+1F4BB'')]"
    "delivered (minimizeAllModals scenario_terminal)
       = [SelectionChanged ''Terminal'', Minimized ''Terminal'']"
    by (simp_all add: minimize_eq scenario_terminal_fields getModalIcon_Terminal)
  show ?thesis
    using icon menu
    by (simp add: scenario_terminal_fields registered_def getAllModals_def rendered_def)
qed

section \<open>Properties of maximize and restore\<close>

lemma toggleMaximize_twice_measured:
  assumes "\<not> isMaximized m"
  shows "toggleMaximize h (toggleMaximize h m) =
         m\<lparr>style_width := Px (r_width (getBoundingClientRect h m)),
           style_height := Px (r_height (getBoundingClientRect h m)),
           style_left := Px (r_left (getBoundingClientRect h m)),
           style_top := Px (r_top (getBoundingClientRect h m)),
           originalSize := None\<rparr>"
  using assms by (simp add: toggleMaximize_def maximize_def restoreSize_def Let_def)

lemma toggleMaximize_twice_at_origin:
  assumes "\<not> isMaximized m" "originalSize m = None" "rendered m"
    and "contentLeft h = 0" "contentTop h = 0" "boxSizing h = BorderBox"
    and "style_width m = Px w" "300 \<le> w" "style_height m = Px hh" "200 \<le> hh"
    and "style_left m = Px l" "style_top m = Px t"
  shows "toggleMaximize h (toggleMaximize h m) = m"
  using assms
  by (simp add: toggleMaximize_twice_measured getBoundingClientRect_def resolve_def
      border_extra_def max_def)

text \<open>The window of \<open>scenario_terminal\<close>, as the launcher created it.\<close>

lemma scenario_terminal_window:
  "heap scenario_terminal 0 =
    \<lparr>title = ''Terminal'', titleBarColor = ''#2c3e50'', isMinimized = False,
     isMaximized = False, originalSize = None, style_width = Px 600, style_height = Px 400,
     style_left = Px 365, style_top = Px 125, style_display = DisplayFlex,
     style_zIndex = 1001, data_active = Some True, attached = True\<rparr>"
  by (simp add: scenario_terminal_def createModalFromDefinition_def createModal_def Let_def
      bringModalToFront_eq initial_UI_def new_ModalWindow_def getAllModals_def terminal_def
      update_window_def calculateRandomModalPosition_def)

text \<open>
  C4: for a window in the Normal state, \<open>toggleMaximize\<close> twice should restore left, top,
  width and height exactly. \<^verbatim>\<open>maximize\<close> saves the bounding rectangle, which is in viewport
  coordinates, and \<^verbatim>\<open>restoreSize\<close> writes it back as style, which is relative to the content
  area. In the layout of this repository (content area below the 40 pixel title bar, a
  viewport of 1280 by 800) the window launched in \<open>scenario_terminal\<close>, at top 125, comes
  back at top 165; state is Normal again and the saved geometry is cleared, left, width and
  height are unchanged (border-box sizing).
\<close>

theorem toggleMaximize_twice_shifts_top:
  "heap scenario_terminal 0 =
    \<lparr>title = ''Terminal'', titleBarColor = ''#2c3e50'', isMinimized = False,
     isMaximized = False, originalSize = None, style_width = Px 600, style_height = Px 400,
     style_left = Px 365, style_top = Px 125, style_display = DisplayFlex,
     style_zIndex = 1001, data_active = Some True, attached = True\<rparr>
   \<and> heap (run (ToggleMaximize (layout_host 1280 800 BorderBox) 0)
        (run (ToggleMaximize (layout_host 1280 800 BorderBox) 0) scenario_terminal)) 0 =
    \<lparr>title = ''Terminal'', titleBarColor = ''#2c3e50'', isMinimized = False,
     isMaximized = False, originalSize = None, style_width = Px 600, style_height = Px 400,
     style_left = Px 365, style_top = Px 165, style_display = DisplayFlex,
     style_zIndex = 1001, data_active = Some True, attached = True\<rparr>"
  by (simp add: scenario_terminal_window update_window_def toggleMaximize_def maximize_def
      restoreSize_def Let_def getBoundingClientRect_def rendered_def resolve_def
      border_extra_def layout_host_def TITLE_BAR_HEIGHT_def title_bar_border_def)

section \<open>Properties of resizing\<close>

lemma border_extra_nonneg: "0 \<le> border_extra h"
  by (simp add: border_extra_def split: box_sizing.split)

lemma rendered_resize: "rendered (resize h d dx dy m) = rendered m"
  by (simp add: resize_def rendered_def Let_def)

lemma rendered_resizes: "rendered (resizes h steps m) = rendered m"
proof (induction steps arbitrary: m)
  case Nil
  show ?case by simp
next
  case (Cons a steps)
  obtain d dx dy where a: "a = (d, dx, dy)" by (cases a)
  show ?case by (simp add: a Cons.IH rendered_resize)
qed

lemma measured_minimum:
  assumes "rendered m"
  shows "300 \<le> r_width (getBoundingClientRect h m) \<and> 200 \<le> r_height (getBoundingClientRect h m)"
  using assms border_extra_nonneg [of h]
  by (simp add: getBoundingClientRect_def max_def)

lemma onMouseMove_minimum:
  assumes "300 \<le> r_width st" "200 \<le> r_height st"
  shows "300 \<le> r_width (onMouseMove st dir dx dy) \<and> 200 \<le> r_height (onMouseMove st dir dx dy)"
  using assms by (simp add: onMouseMove_def Let_def)

lemma resize_minimum:
  assumes "rendered m"
  shows "\<exists>w hh. style_width (resize h d dx dy m) = Px w \<and> 300 \<le> w
           \<and> style_height (resize h d dx dy m) = Px hh \<and> 200 \<le> hh"
  using onMouseMove_minimum [OF measured_minimum [OF assms, THEN conjunct1]
      measured_minimum [OF assms, THEN conjunct2]]
  by (simp add: resize_def Let_def)

lemma resizes_snoc:
  "resizes h (steps @ [(d, dx, dy)]) m = resize h d dx dy (resizes h steps m)"
proof (induction steps arbitrary: m)
  case Nil
  show ?case by simp
next
  case (Cons a steps)
  obtain d' dx' dy' where a: "a = (d', dx', dy')" by (cases a)
  show ?case by (simp add: a Cons.IH)
qed

lemma resizes_minimum:
  assumes "rendered m" "steps \<noteq> []"
  shows "\<exists>w hh. style_width (resizes h steps m) = Px w \<and> 300 \<le> w
           \<and> style_height (resizes h steps m) = Px hh \<and> 200 \<le> hh"
proof -
  from assms(2) obtain init d dx dy where steps: "steps = init @ [(d, dx, dy)]"
    by (cases steps rule: rev_cases) auto
  have "rendered (resizes h init m)" using assms(1) by (simp add: rendered_resizes)
  then show ?thesis unfolding steps resizes_snoc by (rule resize_minimum)
qed

lemma handle_west: "str_includes (handle_name d) ''w'' = (d \<in> {Hnw, Hsw, Hw})"
  by (cases d) simp_all

lemma handle_east: "str_includes (handle_name d) ''e'' = (d \<in> {Hne, Hse, He})"
  by (cases d) simp_all

lemma handle_north: "str_includes (handle_name d) ''n'' = (d \<in> {Hnw, Hn, Hne})"
  by (cases d) simp_all

lemma handle_south: "str_includes (handle_name d) ''s'' = (d \<in> {Hsw, Hs, Hse})"
  by (cases d) simp_all

text \<open>
  In the coordinates of the start rectangle the arithmetic of a mouse move keeps the far
  edges, clamped or not.
\<close>

lemma onMouseMove_far_edges: "far_edges_fixed d st (onMouseMove st (handle_name d) dx dy)"
  by (cases d)
    (simp_all add: far_edges_fixed_def east_edge_def south_edge_def onMouseMove_def Let_def)

text \<open>
  The start rectangle is measured in viewport coordinates, and the new box is written into
  the style, which is relative to the content area. Measured again after the step, the edge
  the step was to keep has moved by the content area's offset (border-box sizing).
\<close>

lemma resize_measured:
  assumes "rendered m" "boxSizing h = BorderBox"
  shows "getBoundingClientRect h (resize h d dx dy m) =
         \<lparr>r_width = r_width (onMouseMove (getBoundingClientRect h m) (handle_name d) dx dy),
          r_height = r_height (onMouseMove (getBoundingClientRect h m) (handle_name d) dx dy),
          r_left = contentLeft h
                   + r_left (onMouseMove (getBoundingClientRect h m) (handle_name d) dx dy),
          r_top = contentTop h
                  + r_top (onMouseMove (getBoundingClientRect h m) (handle_name d) dx dy)\<rparr>"
proof -
  let ?new = "onMouseMove (getBoundingClientRect h m) (handle_name d) dx dy"
  have "300 \<le> r_width ?new \<and> 200 \<le> r_height ?new"
    using measured_minimum [OF assms(1), of h] by (intro onMouseMove_minimum) simp_all
  moreover have "rendered (resize h d dx dy m)" using assms(1) by (simp add: rendered_resize)
  moreover have "style_width (resize h d dx dy m) = Px (r_width ?new)"
    "style_height (resize h d dx dy m) = Px (r_height ?new)"
    "style_left (resize h d dx dy m) = Px (r_left ?new)"
    "style_top (resize h d dx dy m) = Px (r_top ?new)"
    by (simp_all add: resize_def Let_def)
  ultimately show ?thesis
    using assms(2)
    by (simp add: getBoundingClientRect_def [of h "resize h d dx dy m"] resolve_def
        border_extra_def)
qed

lemma resize_moves_far_edges:
  assumes "rendered m" "boxSizing h = BorderBox"
  shows "d \<in> {Hnw, Hn, Hne} \<Longrightarrow>
           south_edge (getBoundingClientRect h (resize h d dx dy m))
           = south_edge (getBoundingClientRect h m) + contentTop h"
    and "d \<in> {Hnw, Hsw, Hw} \<Longrightarrow>
           east_edge (getBoundingClientRect h (resize h d dx dy m))
           = east_edge (getBoundingClientRect h m) + contentLeft h"
proof -
  have far: "far_edges_fixed d (getBoundingClientRect h m)
      (onMouseMove (getBoundingClientRect h m) (handle_name d) dx dy)"
    by (rule onMouseMove_far_edges)
  show "south_edge (getBoundingClientRect h (resize h d dx dy m))
        = south_edge (getBoundingClientRect h m) + contentTop h" if "d \<in> {Hnw, Hn, Hne}"
    using far that
    by (simp add: resize_measured [OF assms] far_edges_fixed_def south_edge_def)
  show "east_edge (getBoundingClientRect h (resize h d dx dy m))
        = east_edge (getBoundingClientRect h m) + contentLeft h" if "d \<in> {Hnw, Hsw, Hw}"
    using far that
    by (simp add: resize_measured [OF assms] far_edges_fixed_def east_edge_def)
qed

text \<open>
  C6: after any sequence of resize steps the width is at least 300 and the height at least
  200 (\<open>resizes_minimum\<close>), and a clamped west or north resize should leave the east or
  south edge where it was. \<^verbatim>\<open>startResize\<close> reads the start rectangle in viewport
  coordinates and every mouse move writes the left and top computed from it into the style,
  which is relative to the content area below the title bar. In the layout of this
  repository (a viewport of 1280 by 800, border-box sizing) the window launched in
  \<open>scenario_terminal\<close> measures 600 by 400 at (365, 165), south edge 565, east edge 965.
  Dragging its north handle down by 900 clamps the height at 200 and puts the window at top
  405: the south edge is at 605, 40 pixels past where it was. Dragging the west handle right
  by 900 clamps the width at 300 and keeps the east edge at 965, the content area having no
  horizontal offset, while the top moves by the same 40 pixels.
\<close>

theorem resize_north_moves_south_edge:
  "rendered (heap scenario_terminal 0)
   \<and> getBoundingClientRect (layout_host 1280 800 BorderBox) (heap scenario_terminal 0)
       = \<lparr>r_width = 600, r_height = 400, r_left = 365, r_top = 165\<rparr>
   \<and> south_edge (getBoundingClientRect (layout_host 1280 800 BorderBox)
        (heap scenario_terminal 0)) = 565
   \<and> east_edge (getBoundingClientRect (layout_host 1280 800 BorderBox)
        (heap scenario_terminal 0)) = 965
   \<and> getBoundingClientRect (layout_host 1280 800 BorderBox)
        (heap (run (Resize (layout_host 1280 800 BorderBox) Hn 0 900 0) scenario_terminal) 0)
       = \<lparr>r_width = 600, r_height = 200, r_left = 365, r_top = 405\<rparr>
   \<and> south_edge (getBoundingClientRect (layout_host 1280 800 BorderBox)
        (heap (run (Resize (layout_host 1280 800 BorderBox) Hn 0 900 0) scenario_terminal) 0))
       = 605
   \<and> getBoundingClientRect (layout_host 1280 800 BorderBox)
        (heap (run (Resize (layout_host 1280 800 BorderBox) Hw 900 0 0) scenario_terminal) 0)
       = \<lparr>r_width = 300, r_height = 400, r_left = 665, r_top = 205\<rparr>
   \<and> east_edge (getBoundingClientRect (layout_host 1280 800 BorderBox)
        (heap (run (Resize (layout_host 1280 800 BorderBox) Hw 900 0 0) scenario_terminal) 0))
       = 965"
  by (simp add: scenario_terminal_window update_window_def resize_def onMouseMove_def Let_def
      getBoundingClientRect_def rendered_def resolve_def border_extra_def layout_host_def
      TITLE_BAR_HEIGHT_def title_bar_border_def south_edge_def east_edge_def)

end
